theory Spec2Isabelle
  imports Complex_Main "HOL-Library.Log_Nat"
begin

section \<open>Numbers\<close>

text \<open>
  A JavaScript number is an IEEE 754 double: a finite value, an infinity, or NaN. The
  finite values are rationals here; the two zeros are one value, which no comparison,
  truth test or serialization of the program tells apart.
\<close>

datatype number = Finite rat | PosInfinity | NegInfinity | NaN

text \<open>
  The class operations on \<open>number\<close> are the exact ones and serve to write numerals
  (\<open>85\<close> is \<open>Finite 85\<close>). What the program computes with \<^verbatim>\<open>+\<close> and \<^verbatim>\<open>/\<close> is rounded to
  the nearest double: \<open>jsAdd\<close> and \<open>divideByLength\<close> below.
\<close>

instantiation number :: "{zero, one, plus}"
begin

definition zero_number :: number where
  "zero_number = Finite 0"

definition one_number :: number where
  "one_number = Finite 1"

fun plus_number :: "number \<Rightarrow> number \<Rightarrow> number" where
  "plus_number (Finite a) (Finite b) = Finite (a + b)"
| "plus_number NaN y = NaN"
| "plus_number x NaN = NaN"
| "plus_number PosInfinity NegInfinity = NaN"
| "plus_number NegInfinity PosInfinity = NaN"
| "plus_number PosInfinity y = PosInfinity"
| "plus_number NegInfinity y = NegInfinity"
| "plus_number x PosInfinity = PosInfinity"
| "plus_number x NegInfinity = NegInfinity"

instance ..

end

instance number :: semigroup_add
proof
  fix a b c :: number
  show "a + b + c = a + (b + c)"
    by (cases a; cases b; cases c) simp_all
qed

instance number :: numeral ..

text \<open>
  Rounding a rational to the nearest double, ties to the even significand. For
  \<open>x \<noteq> 0\<close>, \<open>binaryExponent x\<close> is the \<open>e\<close> with \<open>2\<^sup>e \<le> |x| < 2\<^sup>e\<^sup>+\<^sup>1\<close>, found from the
  bit lengths of numerator and denominator; the unit in the last place of the 53-bit
  significand is \<open>2\<close> to the power \<open>e - 52\<close>, and not below \<open>-1074\<close> (subnormals). A
  rounded value of binary exponent 1024 or more is an infinity.
\<close>

definition binaryExponent :: "rat \<Rightarrow> int" where
  "binaryExponent x =
     (let (p, q) = quotient_of x;
          e0 = bitlen \<bar>p\<bar> - bitlen q
      in if 2 powi e0 \<le> \<bar>x\<bar> then e0 else e0 - 1)"

definition ulpExponent :: "rat \<Rightarrow> int" where
  "ulpExponent x = max (- 1074) (binaryExponent x - 52)"

definition roundHalfEven :: "rat \<Rightarrow> int" where
  "roundHalfEven y =
     (let m = \<lfloor>y\<rfloor>; r = y - of_int m
      in if r < 1 / 2 then m
         else if 1 / 2 < r then m + 1
         else if even m then m else m + 1)"

definition roundToDouble :: "rat \<Rightarrow> number" where
  "roundToDouble x =
     (if x = 0 then Finite 0
      else (let u = 2 powi (ulpExponent x);
                y = of_int (roundHalfEven (x / u)) * u
            in if 1024 \<le> binaryExponent y then (if 0 < x then PosInfinity else NegInfinity)
               else Finite y))"

text \<open>\<^verbatim>\<open>a + b\<close> on numbers.\<close>

definition jsAdd :: "number \<Rightarrow> number \<Rightarrow> number" where
  "jsAdd a b = (case a + b of Finite x \<Rightarrow> roundToDouble x | n \<Rightarrow> n)"

text \<open>\<^verbatim>\<open>a / n\<close> for the length \<open>n\<close> of a non-empty array.\<close>

definition divideByLength :: "number \<Rightarrow> nat \<Rightarrow> number" where
  "divideByLength a n = (case a of Finite x \<Rightarrow> roundToDouble (x / of_nat n) | m \<Rightarrow> m)"

text \<open>\<^verbatim>\<open>a <= b\<close> on numbers; \<^verbatim>\<open>a >= b\<close> is \<open>jsLessEq b a\<close>. NaN compares false.\<close>

fun jsLessEq :: "number \<Rightarrow> number \<Rightarrow> bool" where
  "jsLessEq (Finite a) (Finite b) = (a \<le> b)"
| "jsLessEq NaN y = False"
| "jsLessEq x NaN = False"
| "jsLessEq NegInfinity y = True"
| "jsLessEq x PosInfinity = True"
| "jsLessEq PosInfinity y = False"
| "jsLessEq x NegInfinity = False"

text \<open>\<^verbatim>\<open>Math.round\<close>: the nearest integer, a tie going up; infinities and NaN stay.\<close>

fun Math_round :: "number \<Rightarrow> number" where
  "Math_round (Finite x) = Finite (of_int \<lfloor>x + 1 / 2\<rfloor>)"
| "Math_round n = n"

section \<open>JavaScript values\<close>

text \<open>
  The normalizers of \<^verbatim>\<open>src/services/api.ts\<close> take a value of type \<^verbatim>\<open>any\<close>: whatever
  \<^verbatim>\<open>JSON.parse\<close> made of the backend's answer. A decoded JSON value is null, a boolean,
  a number, a string, an array or an object; the code also produces \<^verbatim>\<open>undefined\<close>
  (a property that is not there), so the value type has it too.

  Numbers are the doubles of the section before: the decoder gives a finite double for
  a literal in range and an infinity for one beyond it. Strings are lists of code
  units, here the 8-bit ones. An object is the list of its own properties in
  enumeration order; the first binding of a name is the property.
\<close>

datatype jsval =
    Undefined
  | Null
  | Bool bool
  | Num number
  | Str string
  | Arr "jsval list"
  | Obj "(string \<times> jsval) list"

datatype error = TypeError

text \<open>\<^verbatim>\<open>!v\<close> is \<open>\<not> truthy v\<close>.\<close>

fun truthy :: "jsval \<Rightarrow> bool" where
  "truthy Undefined = False"
| "truthy Null = False"
| "truthy (Bool b) = b"
| "truthy (Num n) = (n \<noteq> 0 \<and> n \<noteq> NaN)"
| "truthy (Str s) = (s \<noteq> [])"
| "truthy (Arr xs) = True"
| "truthy (Obj kvs) = True"

text \<open>\<^verbatim>\<open>a ?? b\<close>\<close>

fun nullish :: "jsval \<Rightarrow> bool" where
  "nullish Undefined = True"
| "nullish Null = True"
| "nullish v = False"

definition coalesce :: "jsval \<Rightarrow> jsval \<Rightarrow> jsval" where
  "coalesce a b = (if nullish a then b else a)"

fun isArray :: "jsval \<Rightarrow> bool" where
  "isArray (Arr xs) = True"
| "isArray v = False"

fun isString :: "jsval \<Rightarrow> bool" where
  "isString (Str s) = True"
| "isString v = False"

fun isNumber :: "jsval \<Rightarrow> bool" where
  "isNumber (Num n) = True"
| "isNumber v = False"

fun isBoolean :: "jsval \<Rightarrow> bool" where
  "isBoolean (Bool b) = True"
| "isBoolean v = False"

text \<open>\<^verbatim>\<open>typeof v === 'object'\<close> holds of null, of arrays and of objects.\<close>

fun typeofObject :: "jsval \<Rightarrow> bool" where
  "typeofObject Null = True"
| "typeofObject (Arr xs) = True"
| "typeofObject (Obj kvs) = True"
| "typeofObject v = False"

text \<open>
  \<^verbatim>\<open>v.name\<close> for a value that is neither null nor undefined. The names the normalizers
  read (\<^verbatim>\<open>risks\<close>, \<^verbatim>\<open>summary\<close>, \<^verbatim>\<open>severity_score\<close>, ...) are no properties of the
  prototypes of arrays, strings, numbers or booleans, so only an object can have them.
  Reading a property of null or undefined raises TypeError; the callers below test for
  that before they use \<open>getProp\<close>.
\<close>

fun getProp :: "jsval \<Rightarrow> string \<Rightarrow> jsval" where
  "getProp (Obj kvs) name = (case map_of kvs name of None \<Rightarrow> Undefined | Some v \<Rightarrow> v)"
| "getProp v name = Undefined"

text \<open>\<^verbatim>\<open>name in v\<close>: TypeError unless \<open>v\<close> is an object or an array.\<close>

fun hasProperty :: "string \<Rightarrow> jsval \<Rightarrow> error + bool" where
  "hasProperty name (Obj kvs) = Inr (name \<in> fst ` set kvs)"
| "hasProperty name (Arr xs) = Inr False"
| "hasProperty name v = Inl TypeError"

text \<open>\<^verbatim>\<open>Object.values(v)\<close> of an object: one value for each name, the first binding's.\<close>

fun objectValues :: "(string \<times> jsval) list \<Rightarrow> jsval list" where
  "objectValues [] = []"
| "objectValues ((k, v) # kvs) = v # objectValues (filter (\<lambda>kv. fst kv \<noteq> k) kvs)"

section \<open>Strings\<close>

text \<open>\<^verbatim>\<open>\s\<close> and \<^verbatim>\<open>trim\<close> on 8-bit code units: tab, LF, VT, FF, CR, space, NBSP.\<close>

definition isSpace :: "char \<Rightarrow> bool" where
  "isSpace c = (of_char c \<in> {9, 10, 11, 12, 13, 32, 160 :: nat})"

definition trim :: "string \<Rightarrow> string" where
  "trim s = rev (dropWhile isSpace (rev (dropWhile isSpace s)))"

text \<open>\<^verbatim>\<open>toLowerCase\<close> on 8-bit code units: A-Z and the Latin-1 capitals.\<close>

definition lowerChar :: "char \<Rightarrow> char" where
  "lowerChar c =
     (let n = (of_char c :: nat)
      in if (65 \<le> n \<and> n \<le> 90) \<or> (192 \<le> n \<and> n \<le> 222 \<and> n \<noteq> 215)
         then char_of (n + 32) else c)"

definition toLowerCase :: "string \<Rightarrow> string" where
  "toLowerCase s = map lowerChar s"

primrec startsWith :: "string \<Rightarrow> string \<Rightarrow> bool" where
  "startsWith s [] = True"
| "startsWith s (c # w) = (case s of [] \<Rightarrow> False | d # t \<Rightarrow> d = c \<and> startsWith t w)"

text \<open>\<^verbatim>\<open>s.includes(w)\<close>\<close>

primrec strIncludes :: "string \<Rightarrow> string \<Rightarrow> bool" where
  "strIncludes [] w = (w = [])"
| "strIncludes (c # s) w = (startsWith (c # s) w \<or> strIncludes s w)"

text \<open>The decimal digits of an array index, as a template literal prints it.\<close>

function decimal :: "nat \<Rightarrow> string" where
  "decimal n =
     (if n < 10 then [char_of (48 + n)]
      else decimal (n div 10) @ [char_of (48 + n mod 10)])"
  by pat_completeness auto
termination
  by (relation "measure (\<lambda>n. n)") auto

section \<open>Risk-list normalization (\<^verbatim>\<open>normalizeRisksResponse\<close>)\<close>

record RiskItem =
  item_id :: jsval
  provided_severity :: jsval
  severity_level :: jsval
  severity_score :: number
  snippet :: jsval
  label :: jsval
  short_risk :: jsval
  explanation :: jsval
  recommendations :: jsval
  citation :: jsval

record RisksResponse =
  risks :: "RiskItem list"
  document_level :: jsval

text \<open>The object a \<open>RiskItem\<close> is, with the properties in the order the code writes them.\<close>

definition RiskItem_js :: "RiskItem \<Rightarrow> jsval" where
  "RiskItem_js r = Obj
     [(''id'', item_id r),
      (''provided_severity'', provided_severity r),
      (''severity_level'', severity_level r),
      (''severity_score'', Num (severity_score r)),
      (''snippet'', snippet r),
      (''label'', label r),
      (''short_risk'', short_risk r),
      (''explanation'', explanation r),
      (''recommendations'', recommendations r),
      (''citation'', citation r)]"

definition RisksResponse_js :: "RisksResponse \<Rightarrow> jsval" where
  "RisksResponse_js res = Obj
     [(''risks'', Arr (map RiskItem_js (risks res))),
      (''document_level'', document_level res)]"

definition DocumentLevel_js :: "number \<Rightarrow> string \<Rightarrow> nat \<Rightarrow> nat \<Rightarrow> nat \<Rightarrow> jsval" where
  "DocumentLevel_js score tier high medium low = Obj
     [(''computed_risk_score'', Num score),
      (''risk_tier'', Str tier),
      (''counts'', Obj [(''high'', Num (Finite (of_nat high))),
                        (''medium'', Num (Finite (of_nat medium))),
                        (''low'', Num (Finite (of_nat low)))])]"

text \<open>The constant \<^verbatim>\<open>empty\<close> of line 164.\<close>

definition empty_response :: RisksResponse where
  "empty_response = \<lparr>risks = [], document_level = DocumentLevel_js 0 ''Low'' 0 0 0\<rparr>"

text \<open>
  Lines 186 to 198: the severity label of a candidate, and the score: the rounded
  \<^verbatim>\<open>severity_score\<close> when that is a number (an infinity stays one), otherwise 85, 50
  or 15 by the label.
\<close>

definition providedOf :: "jsval \<Rightarrow> jsval" where
  "providedOf r =
     coalesce (getProp r ''provided_severity'') (coalesce (getProp r ''severity_level'') (Str ''Low''))"

definition numericOf :: "jsval \<Rightarrow> number" where
  "numericOf r =
     (case getProp r ''severity_score'' of
        Num x \<Rightarrow> Math_round x
      | _ \<Rightarrow>
         (case providedOf r of
            Str provided \<Rightarrow>
              (let p = toLowerCase provided
               in if strIncludes p ''high'' then 85 else if strIncludes p ''medium'' then 50 else 15)
          | _ \<Rightarrow> 15))"

text \<open>
  The callback of \<^verbatim>\<open>arr.map\<close>, lines 185 to 212. Its first step reads
  \<^verbatim>\<open>r.provided_severity\<close>, which raises TypeError when \<open>r\<close> is null or undefined.
\<close>

definition mapRisk :: "jsval \<Rightarrow> nat \<Rightarrow> error + RiskItem" where
  "mapRisk r i =
     (if nullish r then Inl TypeError
      else Inr
        \<lparr>item_id = coalesce (getProp r ''id'') (Str (''risk-'' @ decimal i)),
         provided_severity = providedOf r,
         severity_level = coalesce (getProp r ''severity_level'') (providedOf r),
         severity_score = numericOf r,
         snippet = coalesce (getProp r ''snippet'')
                     (coalesce (getProp r ''text'') (coalesce (getProp r ''originalText'') (Str ''''))),
         label = coalesce (getProp r ''label'') Undefined,
         short_risk = coalesce (getProp r ''short_risk'')
                        (coalesce (getProp r ''title'')
                           (if isString (getProp r ''label'') then getProp r ''label''
                            else coalesce (getProp r ''short_risk'') (Str ''Potential risk''))),
         explanation = coalesce (getProp r ''explanation'')
                         (coalesce (getProp r ''reason'') (coalesce (getProp r ''why'') (Str ''''))),
         recommendations =
           (if isArray (getProp r ''recommendations'') then getProp r ''recommendations''
            else if truthy (getProp r ''recs'') then getProp r ''recs'' else Arr []),
         citation = coalesce (getProp r ''citation'')
                      (Obj [(''page'', coalesce (getProp r ''page'') Null),
                            (''start'', coalesce (getProp r ''start'') Null),
                            (''end'', coalesce (getProp r ''end'') Null)])\<rparr>)"

text \<open>\<^verbatim>\<open>arr.map((r, i) => ...)\<close>: the first element that raises ends the whole call.\<close>

fun mapRisks :: "nat \<Rightarrow> jsval list \<Rightarrow> error + RiskItem list" where
  "mapRisks i [] = Inr []"
| "mapRisks i (r # rs) =
     (case mapRisk r i of
        Inl e \<Rightarrow> Inl e
      | Inr item \<Rightarrow>
         (case mapRisks (Suc i) rs of
            Inl e \<Rightarrow> Inl e
          | Inr items \<Rightarrow> Inr (item # items)))"

text \<open>
  Lines 216 to 226: the aggregate computed from the items. The sum and the mean are
  double arithmetic; the counters only count, which is exact.
\<close>

definition computeDocumentLevel :: "RiskItem list \<Rightarrow> jsval" where
  "computeDocumentLevel rs =
     (let numericArr = map severity_score rs;
          sum = foldl (\<lambda>s v. jsAdd s v) 0 numericArr;
          computed_risk_score =
            (if length numericArr \<noteq> 0
             then Math_round (divideByLength sum (length numericArr)) else 0);
          high = length (filter (\<lambda>r. jsLessEq 67 (severity_score r)) rs);
          medium = length (filter (\<lambda>r. \<not> jsLessEq 67 (severity_score r)
                                        \<and> jsLessEq 34 (severity_score r)) rs);
          low = length (filter (\<lambda>r. \<not> jsLessEq 67 (severity_score r)
                                     \<and> \<not> jsLessEq 34 (severity_score r)) rs);
          tier = (if jsLessEq computed_risk_score 33 then ''Low''
                  else if jsLessEq computed_risk_score 66 then ''Medium'' else ''High'')
      in DocumentLevel_js computed_risk_score tier high medium low)"

text \<open>
  Lines 171 to 182, for a \<open>raw\<close> that is an array or has an array \<^verbatim>\<open>risks\<close>: the
  candidates and the aggregate the payload supplies (undefined when it supplies none).
  \<^verbatim>\<open>typeof last === 'object'\<close> lets null through to the \<^verbatim>\<open>in\<close> operator, which raises.
  \<open>elements\<close> is \<^verbatim>\<open>slice()\<close> of an array.
\<close>

fun elements :: "jsval \<Rightarrow> jsval list" where
  "elements (Arr xs) = xs"
| "elements v = []"

definition takeDocumentLevel :: "jsval \<Rightarrow> error + (jsval list \<times> jsval)" where
  "takeDocumentLevel raw =
     (let arr = (if isArray raw then elements raw else elements (getProp raw ''risks''))
      in case (if length arr > 0 \<and> typeofObject (last arr)
               then hasProperty ''document_level'' (last arr) else Inr False) of
           Inl e \<Rightarrow> Inl e
         | Inr True \<Rightarrow> Inr (butlast arr, getProp (last arr) ''document_level'')
         | Inr False \<Rightarrow>
             (if truthy (getProp raw ''document_level'')
              then Inr (if isArray (getProp raw ''risks'') then elements (getProp raw ''risks'')
                        else arr,
                        getProp raw ''document_level'')
              else Inr (arr, Undefined)))"

text \<open>Lines 169 to 230: the branch for an array, or for an object with an array \<^verbatim>\<open>risks\<close>.\<close>

definition normalizeRisksArray :: "jsval \<Rightarrow> error + RisksResponse" where
  "normalizeRisksArray raw =
     (case takeDocumentLevel raw of
        Inl e \<Rightarrow> Inl e
      | Inr (arr, supplied) \<Rightarrow>
          (case mapRisks 0 arr of
             Inl e \<Rightarrow> Inl e
           | Inr rs \<Rightarrow>
               Inr \<lparr>risks = rs,
                    document_level =
                      (if \<not> truthy supplied then computeDocumentLevel rs else supplied)\<rparr>))"

text \<open>
  \<^verbatim>\<open>normalizeRisksResponse\<close>, lines 163 to 240. The call on the values of a keyed
  \<^verbatim>\<open>risks\<close> object is the one recursive call; its argument is an array, so the callee
  takes the array branch.
\<close>

function normalizeRisksResponse :: "jsval \<Rightarrow> error + RisksResponse" where
  "normalizeRisksResponse raw =
     (if \<not> truthy raw then Inr empty_response
      else if isArray (getProp raw ''risks'') \<or> isArray raw then normalizeRisksArray raw
      else if truthy (getProp raw ''risks'') \<and> typeofObject (getProp raw ''risks'')
              \<and> \<not> isArray (getProp raw ''risks'')
        then (case getProp raw ''risks'' of
                Obj kvs \<Rightarrow> normalizeRisksResponse (Arr (objectValues kvs))
              | _ \<Rightarrow> Inr empty_response)
      else Inr empty_response)"
  by pat_completeness auto
termination
  by (relation "measure (\<lambda>raw. if isArray raw then 0 else 1)") auto

text \<open>
  What line 185 maps over and what line 215 tests, for any \<open>raw\<close>: the candidates and
  the aggregate the payload supplies. The early returns have no candidates and no
  aggregate.
\<close>

definition candidatesAndAggregate :: "jsval \<Rightarrow> error + (jsval list \<times> jsval)" where
  "candidatesAndAggregate raw =
     (if \<not> truthy raw then Inr ([], Undefined)
      else if isArray (getProp raw ''risks'') \<or> isArray raw then takeDocumentLevel raw
      else (case getProp raw ''risks'' of
              Obj kvs \<Rightarrow> takeDocumentLevel (Arr (objectValues kvs))
            | _ \<Rightarrow> Inr ([], Undefined)))"

section \<open>Summary normalization (\<^verbatim>\<open>normalizeSummarizeResponse\<close>)\<close>

text \<open>
  \<^verbatim>\<open>summary.split(/(?<=[.?!])\s+/)\<close>: a separator is a maximal run of white space that
  follows a terminator. The scan keeps the piece read so far (reversed), whether the
  last code unit was a terminator, and whether it is inside a separator. The piece
  after the last separator is always there, also when it is empty.
\<close>

definition isTerminator :: "char \<Rightarrow> bool" where
  "isTerminator c = (c = CHR ''.'' \<or> c = CHR ''?'' \<or> c = CHR ''!'')"

fun splitSentencesFrom :: "string \<Rightarrow> bool \<Rightarrow> bool \<Rightarrow> string \<Rightarrow> string list" where
  "splitSentencesFrom cur prevTerm inSep [] = [rev cur]"
| "splitSentencesFrom cur prevTerm inSep (c # cs) =
     (if inSep \<and> isSpace c then splitSentencesFrom cur False True cs
      else if prevTerm \<and> isSpace c then rev cur # splitSentencesFrom [] False True cs
      else splitSentencesFrom (c # cur) (isTerminator c) False cs)"

definition splitSentences :: "string \<Rightarrow> string list" where
  "splitSentences s = splitSentencesFrom [] False False s"

text \<open>\<^verbatim>\<open>summary.split(/[;,]+/)\<close>: a separator is a maximal run of commas and semicolons.\<close>

fun splitListFrom :: "string \<Rightarrow> bool \<Rightarrow> string \<Rightarrow> string list" where
  "splitListFrom cur inSep [] = [rev cur]"
| "splitListFrom cur inSep (c # cs) =
     (if c = CHR '';'' \<or> c = CHR '','' then
        (if inSep then splitListFrom cur True cs else rev cur # splitListFrom [] True cs)
      else splitListFrom (c # cur) False cs)"

definition splitList :: "string \<Rightarrow> string list" where
  "splitList s = splitListFrom [] False s"

text \<open>\<^verbatim>\<open>s.replace(/\s+/g, ' ')\<close>: every run of white space becomes one space.\<close>

fun collapseFrom :: "bool \<Rightarrow> string \<Rightarrow> string" where
  "collapseFrom inRun [] = []"
| "collapseFrom inRun (c # cs) =
     (if isSpace c then (if inRun then collapseFrom True cs else CHR '' '' # collapseFrom True cs)
      else c # collapseFrom False cs)"

definition collapseSpaces :: "string \<Rightarrow> string" where
  "collapseSpaces s = collapseFrom False s"

text \<open>
  \<^verbatim>\<open>splitIntoPoints\<close>, lines 89 to 104. The callers pass \<^verbatim>\<open>raw.summary\<close> after a test of
  its truth only, so the argument is any value: a falsy one returns at line 90, and a
  truthy one that is no string has no \<^verbatim>\<open>split\<close> method, which raises TypeError.
\<close>

definition splitIntoPoints :: "jsval \<Rightarrow> nat \<Rightarrow> error + string list" where
  "splitIntoPoints summary maxPoints =
     (if \<not> truthy summary then Inr []
      else (case summary of
              Str s \<Rightarrow>
                (let sentences = filter (\<lambda>x. length x > 10) (map trim (splitSentences s))
                 in if length sentences > 1
                    then Inr (map (\<lambda>x. trim (collapseSpaces x)) (take maxPoints sentences))
                    else
                      (let parts = filter (\<lambda>x. x \<noteq> []) (map trim (splitList s))
                       in if length parts > 1
                          then Inr (map (\<lambda>x. trim (collapseSpaces x)) (take maxPoints parts))
                          else Inr [trim s]))
            | _ \<Rightarrow> Inl TypeError))"

text \<open>
  The normalized summary. A property that a branch does not write is undefined, as a
  read of it is. \<^verbatim>\<open>fallback\<close> is a boolean on every branch.
\<close>

record SummarizeResponse =
  doc_id :: jsval
  executive_summary :: jsval
  points :: jsval
  key_clauses :: jsval
  purpose :: jsval
  rag_corpus :: jsval
  fallback :: bool
  debug :: jsval
  summary :: jsval

definition SummarizeResponse_js :: "SummarizeResponse \<Rightarrow> jsval" where
  "SummarizeResponse_js res = Obj
     [(''doc_id'', doc_id res),
      (''executive_summary'', executive_summary res),
      (''points'', points res),
      (''key_clauses'', key_clauses res),
      (''purpose'', purpose res),
      (''rag_corpus'', rag_corpus res),
      (''fallback'', Bool (fallback res)),
      (''debug'', debug res),
      (''summary'', summary res)]"

definition pointsArray :: "error + string list \<Rightarrow> error + jsval" where
  "pointsArray r = (case r of Inl e \<Rightarrow> Inl e | Inr ps \<Rightarrow> Inr (Arr (map Str ps)))"

text \<open>Lines 111 to 123: the branch for a truthy \<^verbatim>\<open>executive_summary\<close> or an array \<^verbatim>\<open>points\<close>.\<close>

definition isStructured :: "jsval \<Rightarrow> bool" where
  "isStructured raw = (truthy (getProp raw ''executive_summary'') \<or> isArray (getProp raw ''points''))"

definition normalizeStructured :: "jsval \<Rightarrow> error + SummarizeResponse" where
  "normalizeStructured raw =
     (case (if isArray (getProp raw ''points'') then Inr (getProp raw ''points'')
            else if isString (getProp raw ''points'') then Inr (Arr [getProp raw ''points''])
            else if truthy (getProp raw ''summary'')
              then pointsArray (splitIntoPoints (getProp raw ''summary'') 10)
            else Inr (Arr [])) of
        Inl e \<Rightarrow> Inl e
      | Inr pts \<Rightarrow> Inr
         \<lparr>doc_id = getProp raw ''doc_id'',
          executive_summary =
            coalesce (getProp raw ''executive_summary'')
              (if isString (getProp raw ''summary'') then getProp raw ''summary'' else Str ''''),
          points = pts,
          key_clauses =
            (if truthy (coalesce (getProp raw ''key_clauses'')
                          (Bool (getProp raw ''key_clauses'' = Null)))
             then Arr [] else Arr []),
          purpose = coalesce (getProp raw ''purpose'')
                      (coalesce (getProp raw ''document_purpose'') Null),
          rag_corpus = coalesce (getProp raw ''rag_corpus'')
                         (coalesce (getProp raw ''corpus_name'') Null),
          fallback = (case getProp raw ''fallback'' of Bool b \<Rightarrow> b | _ \<Rightarrow> False),
          debug = coalesce (getProp raw ''debug'') Undefined,
          summary = coalesce (getProp raw ''summary'')
                      (coalesce (getProp raw ''executive_summary'') Undefined)\<rparr>)"

text \<open>\<^verbatim>\<open>normalizeSummarizeResponse\<close>, lines 106 to 161.\<close>

definition normalizeSummarizeResponse :: "jsval \<Rightarrow> error + SummarizeResponse" where
  "normalizeSummarizeResponse raw =
     (if \<not> truthy raw then Inr
        \<lparr>doc_id = Undefined, executive_summary = Str '''', points = Arr [],
         key_clauses = Arr [], purpose = Undefined, rag_corpus = Undefined,
         fallback = True, debug = Undefined, summary = Undefined\<rparr>
      else if isStructured raw then normalizeStructured raw
      else if isString (getProp raw ''summary'') then
        (case pointsArray (splitIntoPoints (getProp raw ''summary'') 10) of
           Inl e \<Rightarrow> Inl e
         | Inr pts \<Rightarrow> Inr
            \<lparr>doc_id = getProp raw ''doc_id'',
             executive_summary = getProp raw ''summary'',
             points = pts,
             key_clauses = Arr [],
             purpose = coalesce (getProp raw ''purpose'') Null,
             rag_corpus = coalesce (getProp raw ''rag_corpus'')
                            (coalesce (getProp raw ''corpus_name'') Null),
             fallback = truthy (getProp raw ''fallback''),
             debug = coalesce (getProp raw ''debug'') Undefined,
             summary = getProp raw ''summary''\<rparr>)
      else if isString raw then
        (case pointsArray (splitIntoPoints raw 10) of
           Inl e \<Rightarrow> Inl e
         | Inr pts \<Rightarrow> Inr
            \<lparr>doc_id = Undefined, executive_summary = raw, points = pts,
             key_clauses = Arr [], purpose = Undefined, rag_corpus = Undefined,
             fallback = True, debug = Undefined, summary = raw\<rparr>)
      else
        (case (if nullish (getProp raw ''points'')
               then (if truthy (getProp raw ''summary'')
                     then pointsArray (splitIntoPoints (getProp raw ''summary'') 10)
                     else Inr (Arr []))
               else Inr (getProp raw ''points'')) of
           Inl e \<Rightarrow> Inl e
         | Inr pts \<Rightarrow> Inr
            \<lparr>doc_id = Undefined,
             executive_summary =
               coalesce (getProp raw ''executive_summary'')
                 (coalesce (getProp raw ''summary'') (Str '''')),
             points = pts,
             key_clauses = coalesce (getProp raw ''key_clauses'') (Arr []),
             purpose = coalesce (getProp raw ''purpose'') Null,
             rag_corpus = coalesce (getProp raw ''rag_corpus'') Null,
             fallback = truthy (getProp raw ''fallback''),
             debug = Undefined,
             summary = coalesce (getProp raw ''summary'') Undefined\<rparr>))"

text \<open>Normalizing what a normalizer returned: the value goes back in as the object it is.\<close>

definition renormalizeSummary :: "jsval \<Rightarrow> error + SummarizeResponse" where
  "renormalizeSummary raw =
     (case normalizeSummarizeResponse raw of
        Inl e \<Rightarrow> Inl e
      | Inr res \<Rightarrow> normalizeSummarizeResponse (SummarizeResponse_js res))"

definition renormalizeRisks :: "jsval \<Rightarrow> error + RisksResponse" where
  "renormalizeRisks raw =
     (case normalizeRisksResponse raw of
        Inl e \<Rightarrow> Inl e
      | Inr res \<Rightarrow> normalizeRisksResponse (RisksResponse_js res))"

section \<open>The dashboard's helpers (\<^verbatim>\<open>Dashboard.tsx\<close>)\<close>

text \<open>
  \<^verbatim>\<open>formatSummaryPoints\<close>: the dashboard's own splitter. It keeps every non-empty
  fragment, takes up to 12, and falls back to windows of 120 code units.
\<close>

function chunkLoop :: "string \<Rightarrow> nat \<Rightarrow> string list \<Rightarrow> string list" where
  "chunkLoop s i chunks =
     (if i < length s \<and> length chunks < 12
      then chunkLoop s (i + 120) (chunks @ [trim (take 120 (drop i s))])
      else chunks)"
  by pat_completeness auto
termination
  by (relation "measure (\<lambda>(s, i, chunks). length s - i)") auto

definition formatSummaryPoints :: "jsval \<Rightarrow> error + string list" where
  "formatSummaryPoints summaryText =
     (if \<not> truthy summaryText then Inr []
      else (case summaryText of
              Str s \<Rightarrow>
                (let sentences = filter (\<lambda>x. x \<noteq> []) (map trim (splitSentences s))
                 in if length sentences \<ge> 2 then Inr (take 12 sentences)
                    else
                      (let parts = filter (\<lambda>x. x \<noteq> []) (map trim (splitList s))
                       in if length parts \<ge> 2 then Inr (take 12 parts)
                          else Inr (chunkLoop s 0 [])))
            | _ \<Rightarrow> Inl TypeError))"

text \<open>
  \<^verbatim>\<open>extractCitationFromText\<close>: the first \<^verbatim>\<open>[digits:digits]\<close> of the text. A greedy
  \<^verbatim>\<open>\d+\<close> before a colon or a bracket takes the whole run of digits. \<^verbatim>\<open>Number\<close> of a
  run of digits is the nearest double.
\<close>

definition isDigit :: "char \<Rightarrow> bool" where
  "isDigit c = (48 \<le> (of_char c :: nat) \<and> (of_char c :: nat) \<le> 57)"

definition numberOfDigits :: "string \<Rightarrow> number" where
  "numberOfDigits ds = roundToDouble (of_nat (foldl (\<lambda>n c. 10 * n + (of_char c - 48)) 0 ds))"

definition matchCitationAt :: "string \<Rightarrow> (string \<times> string) option" where
  "matchCitationAt s =
     (let d1 = takeWhile isDigit s; r1 = dropWhile isDigit s
      in if d1 = [] then None
         else (case r1 of
                 [] \<Rightarrow> None
               | c # r2 \<Rightarrow>
                  (if c \<noteq> CHR '':'' then None
                   else (let d2 = takeWhile isDigit r2; r3 = dropWhile isDigit r2
                         in if d2 = [] then None
                            else (case r3 of
                                    [] \<Rightarrow> None
                                  | e # r4 \<Rightarrow> if e = CHR '']'' then Some (d1, d2) else None)))))"

fun findCitation :: "string \<Rightarrow> (string \<times> string) option" where
  "findCitation [] = None"
| "findCitation (c # cs) =
     (if c = CHR ''[''
      then (case matchCitationAt cs of Some m \<Rightarrow> Some m | None \<Rightarrow> findCitation cs)
      else findCitation cs)"

definition noCitation :: jsval where
  "noCitation = Obj [(''page'', Null), (''start'', Null), (''end'', Null)]"

definition extractCitationFromText :: "string \<Rightarrow> jsval" where
  "extractCitationFromText text =
     (if text = [] then noCitation
      else (case findCitation text of
              Some (a, b) \<Rightarrow>
                Obj [(''page'', Null), (''start'', Num (numberOfDigits a)),
                     (''end'', Num (numberOfDigits b))]
            | None \<Rightarrow> noCitation))"

text \<open>\<^verbatim>\<open>findKeywords\<close>: the categories, in the order of the table, one of whose words the
  lower-cased text includes. \<^verbatim>\<open>Array.from(new Set(found))\<close> keeps first occurrences.\<close>

definition kws :: "(string \<times> string list) list" where
  "kws =
     [(''eviction'', [''evict'', ''eviction'', ''forfeit'', ''forfeiture'']),
      (''late_payment'', [''late'', ''late payment'', ''interest'', ''grace period'', ''penalty'']),
      (''deposit'', [''deposit'', ''security deposit'']),
      (''termination'', [''terminate'', ''termination'', ''notice'', ''early termination'']),
      (''subletting'', [''sublet'', ''subletting'', ''sub-lett'']),
      (''utilities'', [''utility'', ''electric'', ''water'', ''gas'', ''internet'']),
      (''maintenance'', [''maintain'', ''repair'', ''responsible for'', ''care of the property''])]"

definition findKeywords :: "string \<Rightarrow> string list" where
  "findKeywords text =
     (let low = toLowerCase text;
          found = map fst (filter (\<lambda>(tag, words). list_ex (\<lambda>w. strIncludes low w) words) kws)
      in rev (remdups (rev found)))"

definition severityForTag :: "string \<Rightarrow> string \<times> number" where
  "severityForTag tag =
     (if tag = ''eviction'' then (''High'', 85)
      else if tag = ''late_payment'' then (''Medium'', 55)
      else if tag = ''deposit'' then (''Medium'', 50)
      else if tag = ''termination'' then (''Medium'', 60)
      else if tag = ''subletting'' then (''Low'', 30)
      else if tag = ''utilities'' then (''Low'', 25)
      else if tag = ''maintenance'' then (''Low'', 28)
      else (''Low'', 20))"

text \<open>\<^verbatim>\<open>tag.replace('_', ' ')\<close>: the first underscore only.\<close>

fun replaceUnderscore :: "string \<Rightarrow> string" where
  "replaceUnderscore [] = []"
| "replaceUnderscore (c # cs) = (if c = CHR ''_'' then CHR '' '' # cs else c # replaceUnderscore cs)"

text \<open>The item pushed at lines 186 to 202, for a category found in the whole summary.\<close>

definition summaryRisk :: "string \<Rightarrow> string \<Rightarrow> RiskItem" where
  "summaryRisk summaryText tag =
     (let sev = severityForTag tag
      in \<lparr>item_id = Str (''heuristic-'' @ tag),
          provided_severity = Str (fst sev),
          severity_level = Undefined,
          severity_score = snd sev,
          snippet = Str (take 300 summaryText),
          label = Str (replaceUnderscore tag),
          short_risk = Str (''Possible '' @ replaceUnderscore tag @ '' clause identified.''),
          explanation = Str (''The document language includes terms related to '' @ [CHR 0x22]
                             @ replaceUnderscore tag @ [CHR 0x22]
                             @ '' which may expose the resident to '' @ toLowerCase (fst sev)
                             @ '' risk.''),
          recommendations =
            (if tag = ''eviction''
             then Arr [Str ''Clarify eviction conditions and notice periods in writing.'',
                       Str ''Include tenant remedy steps before eviction.'']
             else Arr [Str ''Review clause with legal counsel.'',
                       Str ''Consider negotiating clearer terms.'']),
          citation = extractCitationFromText summaryText\<rparr>)"

text \<open>The item pushed at lines 215 to 231, for a category found in point \<open>i\<close>.\<close>

definition pointRisk :: "nat \<Rightarrow> string \<Rightarrow> string \<Rightarrow> RiskItem" where
  "pointRisk i pt tag =
     (let sev = severityForTag tag
      in \<lparr>item_id = Str (''heuristic-point-'' @ decimal i @ ''-'' @ tag),
          provided_severity = Str (fst sev),
          severity_level = Undefined,
          severity_score = snd sev,
          snippet = Str pt,
          label = Str (take 60 pt),
          short_risk = Str (if length pt > 80 then take 80 pt @ ''...'' else pt),
          explanation = Str (''Point mentions '' @ [CHR 0x22] @ replaceUnderscore tag @ [CHR 0x22]
                             @ '' which can create '' @ toLowerCase (fst sev)
                             @ '' risk if not clarified.''),
          recommendations =
            (if tag = ''late_payment''
             then Arr [Str ''Add explicit grace period and late fee caps.'',
                       Str ''Specify notification process for late payments.'']
             else Arr [Str ''Clarify and limit the clause where possible.'',
                       Str ''Document exceptions and notice periods.'']),
          citation = extractCitationFromText pt\<rparr>)"

text \<open>
  The item pushed at lines 239 to 249 when nothing was found. The dash of its
  \<^verbatim>\<open>short_risk\<close> is U+2014, written here as its three UTF-8 bytes.
\<close>

definition genericRisk :: "string \<Rightarrow> string list \<Rightarrow> RiskItem" where
  "genericRisk summaryText pts =
     \<lparr>item_id = Str ''heuristic-none'',
      provided_severity = Str ''Low'',
      severity_level = Undefined,
      severity_score = 10,
      snippet = (if summaryText \<noteq> [] then Str summaryText
                 else (case pts of [] \<Rightarrow> Str '''' | p # ps \<Rightarrow> Str p)),
      label = Str ''No obvious high-risk clauses detected'',
      short_risk = Str (''No explicit risky clauses found '' @ [CHR 0xE2, CHR 0x80, CHR 0x94]
                        @ '' manual review recommended.''),
      explanation = Str (''Automated scan did not find typical risk keywords; ''
                         @ ''still recommend human review for context-specific risk.''),
      recommendations = Arr [Str ''Have a lawyer review for context-specific liabilities'',
                             Str ''Check payment and termination sections closely''],
      citation = extractCitationFromText summaryText\<rparr>"

text \<open>
  \<^verbatim>\<open>generateHeuristicRisks\<close>, lines 176 to 265. The state of both scans is the list
  \<^verbatim>\<open>risks\<close> and the set \<^verbatim>\<open>usedTags\<close>.
\<close>

definition summaryStep ::
  "string \<Rightarrow> RiskItem list \<times> string set \<Rightarrow> string \<Rightarrow> RiskItem list \<times> string set" where
  "summaryStep summaryText st tag =
     (if tag \<notin> snd st then (fst st @ [summaryRisk summaryText tag], insert tag (snd st))
      else st)"

definition summaryScan :: "string \<Rightarrow> RiskItem list \<times> string set \<Rightarrow> RiskItem list \<times> string set" where
  "summaryScan summaryText st =
     (if summaryText \<noteq> [] then foldl (summaryStep summaryText) st (findKeywords summaryText)
      else st)"

definition pointStep ::
  "nat \<Rightarrow> string \<Rightarrow> RiskItem list \<times> string set \<Rightarrow> string \<Rightarrow> RiskItem list \<times> string set" where
  "pointStep i pt st tag =
     (if tag \<notin> snd st then (fst st @ [pointRisk i pt tag], insert tag (snd st))
      else st)"

fun pointsScan ::
  "nat \<Rightarrow> string list \<Rightarrow> RiskItem list \<times> string set \<Rightarrow> RiskItem list \<times> string set" where
  "pointsScan i [] st = st"
| "pointsScan i (pt # pts) st =
     (if length (fst st) < 8
      then pointsScan (Suc i) pts (foldl (pointStep i pt) st (findKeywords pt))
      else st)"

text \<open>Lines 252 to 264 repeat lines 216 to 226 of \<^verbatim>\<open>api.ts\<close> on the synthesized items.\<close>

definition generateHeuristicRisks :: "string \<Rightarrow> string list \<Rightarrow> RisksResponse" where
  "generateHeuristicRisks summaryText pts =
     (let found = fst (pointsScan 0 pts (summaryScan summaryText ([], {})));
          rs = (if length found = 0 then found @ [genericRisk summaryText pts] else found)
      in \<lparr>risks = rs, document_level = computeDocumentLevel rs\<rparr>)"

text \<open>The category an item was emitted for is the end of its \<^verbatim>\<open>id\<close>, after the last dash.\<close>

definition categoryOf :: "RiskItem \<Rightarrow> string" where
  "categoryOf r =
     (case item_id r of
        Str s \<Rightarrow> rev (takeWhile (\<lambda>c. c \<noteq> CHR ''-'') (rev s))
      | _ \<Rightarrow> [])"

text \<open>
  The invariant of both scans: the items so far were emitted for different categories,
  every one of them is marked as used, and every one is a category of the table.
\<close>

definition scanInvariant :: "RiskItem list \<times> string set \<Rightarrow> bool" where
  "scanInvariant st =
     (distinct (map categoryOf (fst st)) \<and>
      categoryOf ` set (fst st) \<subseteq> snd st \<and>
      categoryOf ` set (fst st) \<subseteq> fst ` set kws)"

text \<open>The scores the synthesizer gives: finite integers from 0 to 85.\<close>

definition heuristicScore :: "number \<Rightarrow> bool" where
  "heuristicScore n = (case n of Finite v \<Rightarrow> v \<in> \<int> \<and> 0 \<le> v \<and> v \<le> 85 | _ \<Rightarrow> False)"

section \<open>Properties\<close>

declare normalizeRisksResponse.simps [simp del]
declare decimal.simps [simp del]
declare chunkLoop.simps [simp del]

subsection \<open>Numbers\<close>

lemma numeral_number [simp]: "(numeral k :: number) = Finite (numeral k)"
proof (induction k)
  case One
  show ?case by (simp add: one_number_def)
next
  case (Bit0 k)
  have "(numeral (Num.Bit0 k) :: number) = Finite (numeral k) + Finite (numeral k)"
    unfolding numeral_Bit0 [of k, where 'a = number] Bit0.IH ..
  also have "\<dots> = Finite (numeral k + numeral k)"
    by (rule plus_number.simps(1))
  also have "numeral k + numeral k = (numeral (Num.Bit0 k) :: rat)"
    by (rule numeral_Bit0 [symmetric])
  finally show ?case .
next
  case (Bit1 k)
  have "(numeral (Num.Bit1 k) :: number) = Finite (numeral k) + Finite (numeral k) + Finite 1"
    unfolding numeral_Bit1 [of k, where 'a = number] Bit1.IH one_number_def ..
  also have "\<dots> = Finite (numeral k + numeral k + 1)"
    by (simp only: plus_number.simps(1))
  also have "numeral k + numeral k + 1 = (numeral (Num.Bit1 k) :: rat)"
    by (rule numeral_Bit1 [symmetric])
  finally show ?case .
qed

lemma zero_number [simp]: "(0 :: number) = Finite 0"
  by (rule zero_number_def)

lemma binaryExponent_lower:
  assumes "x \<noteq> 0"
  shows "2 powi (binaryExponent x) \<le> \<bar>x\<bar>"
proof -
  obtain p q where pq: "quotient_of x = (p, q)" by (cases "quotient_of x")
  then have q: "0 < q" and x: "x = of_int p / of_int q"
    by (simp_all add: quotient_of_denom_pos quotient_of_div)
  with assms have p: "0 < \<bar>p\<bar>" by auto
  define a where "a = bitlen \<bar>p\<bar>"
  define b where "b = bitlen q"
  from bitlen_bounds [OF p] have pa: "2 ^ nat (a - 1) \<le> \<bar>p\<bar>" by (simp add: a_def)
  from bitlen_bounds [OF q] have qb: "q < 2 ^ nat b" by (simp add: b_def)
  have a1: "1 \<le> a" using p by (simp add: a_def bitlen_alt_def)
  have b0: "0 \<le> b" by (simp add: b_def bitlen_nonneg)
  show ?thesis
  proof (cases "2 powi (a - b) \<le> \<bar>x\<bar>")
    case True
    then show ?thesis by (simp add: binaryExponent_def pq a_def b_def)
  next
    case False
    have "(2::rat) powi (a - b - 1) = 2 powi (a - 1) / 2 powi b"
      using power_int_diff [of "2::rat" "a - 1" b] by (simp add: algebra_simps)
    also have "\<dots> = 2 ^ nat (a - 1) / 2 ^ nat b"
      using a1 b0 by (simp add: power_int_def)
    also have "\<dots> \<le> of_int \<bar>p\<bar> / of_int q"
    proof (rule frac_le)
      show "(0::rat) \<le> of_int \<bar>p\<bar>" by simp
      have "(of_int (2 ^ nat (a - 1)) :: rat) \<le> of_int \<bar>p\<bar>"
        using pa by (simp only: of_int_le_iff)
      then show "(2::rat) ^ nat (a - 1) \<le> of_int \<bar>p\<bar>" by simp
      show "(0::rat) < of_int q" using q by simp
      from qb have "q \<le> 2 ^ nat b" by simp
      then have "(of_int q :: rat) \<le> of_int (2 ^ nat b)"
        by (simp only: of_int_le_iff)
      then show "(of_int q :: rat) \<le> 2 ^ nat b" by simp
    qed
    also have "\<dots> = \<bar>x\<bar>" using q by (simp add: x)
    finally show ?thesis
      using False by (simp add: binaryExponent_def pq a_def b_def)
  qed
qed

lemma binaryExponent_less:
  assumes "x \<noteq> 0" and "\<bar>x\<bar> < 2 powi m"
  shows "binaryExponent x < m"
proof (rule ccontr)
  assume "\<not> binaryExponent x < m"
  then have "m \<le> binaryExponent x" by simp
  then have "(2::rat) powi m \<le> 2 powi (binaryExponent x)"
    by (intro power_int_increasing) simp_all
  with binaryExponent_lower [OF assms(1)] assms(2) show False by simp
qed

lemma binaryExponent_zero: "binaryExponent 0 = - 2"
proof -
  have "bitlen 1 = 1" by (simp add: bitlen_alt_def)
  then show ?thesis by (simp add: binaryExponent_def)
qed

lemma binaryExponent_less_1024:
  assumes "\<bar>y\<bar> < 2 ^ 53"
  shows "binaryExponent y < 1024"
proof (cases "y = 0")
  case True
  then show ?thesis by (simp add: binaryExponent_zero)
next
  case False
  from assms have "\<bar>y\<bar> < 2 powi 53" by simp
  from binaryExponent_less [OF False this] show ?thesis by simp
qed

lemma roundHalfEven_of_int: "roundHalfEven (of_int w) = w"
  by (simp add: roundHalfEven_def)

lemma roundHalfEven_bounds: "\<lfloor>t\<rfloor> \<le> roundHalfEven t \<and> roundHalfEven t \<le> \<lfloor>t\<rfloor> + 1"
  by (simp add: roundHalfEven_def Let_def)

lemma roundHalfEven_up:
  "roundHalfEven t = \<lfloor>t\<rfloor> + 1 \<Longrightarrow> 1 / 2 \<le> t - of_int \<lfloor>t\<rfloor>"
  by (simp add: roundHalfEven_def Let_def split: if_splits)

lemma powi_nonpos: "k \<le> 0 \<Longrightarrow> (2::rat) powi k = 1 / 2 ^ nat (- k)"
  by (cases "k = 0") (simp_all add: power_int_def inverse_eq_divide power_one_over)

text \<open>An integer below \<open>2\<^sup>5\<^sup>3\<close> in magnitude is a double.\<close>

lemma roundToDouble_of_int:
  assumes "\<bar>z\<bar> < 2 ^ 53"
  shows "roundToDouble (of_int z) = Finite (of_int z)"
proof (cases "z = 0")
  case True
  then show ?thesis by (simp add: roundToDouble_def)
next
  case False
  define x :: rat where "x = of_int z"
  have x0: "x \<noteq> 0" using False by (simp add: x_def)
  from assms have "(of_int \<bar>z\<bar> :: rat) < of_int (2 ^ 53)" by (simp only: of_int_less_iff)
  then have ax: "\<bar>x\<bar> < 2 ^ 53" by (simp add: x_def)
  then have "\<bar>x\<bar> < 2 powi 53" by simp
  from binaryExponent_less [OF x0 this] have k: "ulpExponent x \<le> 0"
    by (simp add: ulpExponent_def)
  define j where "j = nat (- ulpExponent x)"
  have u: "(2::rat) powi (ulpExponent x) = 1 / 2 ^ j"
    unfolding j_def by (rule powi_nonpos [OF k])
  have "x / (1 / 2 ^ j) = of_int (z * 2 ^ j)" by (simp add: x_def)
  then have r: "roundHalfEven (x / (1 / 2 ^ j)) = z * 2 ^ j"
    by (simp only: roundHalfEven_of_int)
  have y: "of_int (z * 2 ^ j) * (1 / 2 ^ j) = x" by (simp add: x_def)
  from binaryExponent_less_1024 [OF ax] x0 show ?thesis
    unfolding roundToDouble_def Let_def u r y x_def [symmetric] by simp
qed

text \<open>
  The quotient of an integer below \<open>2\<^sup>5\<^sup>2\<close> in magnitude by an array length rounds to a
  double that \<^verbatim>\<open>Math.round\<close> sends where it sends the exact quotient: a half-integer is
  a double of that size, and the quotient is too far from the next one to be rounded
  onto it.
\<close>

lemma roundToDouble_quotient:
  assumes n: "0 < n" "n < 2 ^ 32" and s: "\<bar>s\<bar> < 2 ^ 52"
  shows "\<exists>y. roundToDouble (of_int s / of_nat n) = Finite y \<and>
             \<lfloor>y + 1 / 2\<rfloor> = \<lfloor>of_int s / of_nat n + 1 / 2 :: rat\<rfloor>"
proof (cases "s = 0")
  case True
  then show ?thesis by (simp add: roundToDouble_def)
next
  case False
  define q :: rat where "q = of_int s / of_nat n"
  have n0: "(0::rat) < of_nat n" and n1: "(1::rat) \<le> of_nat n" using n by simp_all
  have q0: "q \<noteq> 0" using False n by (simp add: q_def)
  have qs: "\<bar>q\<bar> * of_nat n = of_int \<bar>s\<bar>" using n by (simp add: q_def)
  have "\<bar>q\<bar> * 1 \<le> \<bar>q\<bar> * of_nat n" by (rule mult_left_mono [OF n1]) simp
  with qs have qle: "\<bar>q\<bar> \<le> of_int \<bar>s\<bar>" by simp
  from s have s52: "(of_int \<bar>s\<bar> :: rat) < 2 ^ 52"
    using of_int_less_iff [of "\<bar>s\<bar>" "2 ^ 52", where 'a = rat] by simp
  with qle have q52: "\<bar>q\<bar> < 2 ^ 52" by simp
  then have "\<bar>q\<bar> < 2 powi 52" by simp
  note e = binaryExponent_less [OF q0 this]
  define k where "k = ulpExponent q"
  have k1: "k \<le> - 1" using e by (simp add: k_def ulpExponent_def)
  define J where "J = nat (- k - 1)"
  define u :: rat where "u = 2 powi k"
  have kJ: "nat (- k) = Suc J" using k1 by (simp add: J_def)
  have u_eq: "u = 1 / (2 * 2 ^ J)"
    unfolding u_def using powi_nonpos [of k] k1 kJ by simp
  have u0: "0 < u" by (simp add: u_def)
  have nu: "of_nat n * u < 1"
  proof (cases "binaryExponent q - 52 \<le> - 1074")
    case True
    then have "k = - 1074" by (simp add: k_def ulpExponent_def)
    define P :: rat where "P = 2 ^ 1074"
    have "u = 1 / P" using \<open>k = - 1074\<close> powi_nonpos [of k] by (simp add: u_def P_def)
    moreover have "(of_nat n :: rat) < 2 ^ 32"
      using n(2) of_nat_less_iff [of n "2 ^ 32", where 'a = rat] by simp
    moreover have "(2::rat) ^ 32 \<le> P" unfolding P_def by (rule power_increasing) simp_all
    ultimately have nP: "of_nat n < P" and P0: "0 < P" and uP: "u = 1 / P" by simp_all
    from nP P0 have "of_nat n / P < 1" by simp
    then show ?thesis by (simp add: uP)
  next
    case False
    then have "k = binaryExponent q - 52" by (simp add: k_def ulpExponent_def)
    then have "u = 2 powi (binaryExponent q) / 2 ^ 52"
      using power_int_diff [of "2::rat" "binaryExponent q" 52] by (simp add: u_def)
    also have "\<dots> \<le> \<bar>q\<bar> / 2 ^ 52"
      using binaryExponent_lower [OF q0] by (simp add: divide_right_mono)
    finally have "of_nat n * u \<le> of_nat n * (\<bar>q\<bar> / 2 ^ 52)"
      using n0 by (simp add: mult_left_mono)
    also have "\<dots> = of_int \<bar>s\<bar> / 2 ^ 52" using qs by (simp add: mult.commute)
    also have "\<dots> < 1" using s52 by simp
    finally show ?thesis .
  qed
  define t where "t = q / u"
  define g where "g = roundHalfEven t"
  define y where "y = of_int g * u"
  define j where "j = \<lfloor>q + 1 / 2\<rfloor>"
  have h1: "of_int j - 1 / 2 \<le> q" and h2: "q < of_int j + 1 / 2"
    unfolding j_def by linarith+
  define H1 where "H1 = (2 * j - 1) * 2 ^ J"
  define H2 where "H2 = (2 * j + 1) * 2 ^ J"
  have H1u: "of_int H1 * u = of_int j - 1 / 2"
    by (simp add: H1_def u_eq field_simps)
  have H2u: "of_int H2 * u = of_int j + 1 / 2"
    by (simp add: H2_def u_eq field_simps)
  have tu: "t * u = q" using u0 by (simp add: t_def)
  have "of_int H1 * u \<le> t * u" using h1 by (simp only: H1u tu)
  then have "of_int H1 \<le> t" using u0 by simp
  then have "H1 \<le> \<lfloor>t\<rfloor>" by (simp add: le_floor_iff)
  with roundHalfEven_bounds [of t] have "H1 \<le> g" by (simp add: g_def)
  then have "(of_int H1 :: rat) \<le> of_int g" by simp
  then have "of_int H1 * u \<le> of_int g * u" using u0 by simp
  then have lower: "of_int j - 1 / 2 \<le> y" by (simp only: H1u y_def)
  have "t * u < of_int H2 * u" using h2 by (simp only: H2u tu)
  then have tH2: "t < of_int H2" using u0 by simp
  then have fl: "\<lfloor>t\<rfloor> < H2" by (simp add: floor_less_iff)
  have "g \<noteq> H2"
  proof
    assume gH: "g = H2"
    with fl roundHalfEven_bounds [of t] have "roundHalfEven t = \<lfloor>t\<rfloor> + 1"
      by (simp add: g_def)
    from roundHalfEven_up [OF this] this gH have "of_int H2 - 1 / 2 \<le> t"
      by (simp add: g_def)
    then have "(of_int H2 - 1 / 2) * u \<le> t * u" using u0 by simp
    then have near: "of_int j + 1 / 2 - q \<le> u / 2"
      by (simp add: tu H2u left_diff_distrib)
    define d where "d = (2 * j + 1) * int n - 2 * s"
    have dq: "(of_int d :: rat) = 2 * of_nat n * (of_int j + 1 / 2 - q)"
      using n0 by (simp add: d_def q_def field_simps)
    have "(0::rat) < 2 * of_nat n * (of_int j + 1 / 2 - q)"
      using n0 h2 by simp
    then have "(0::rat) < of_int d" by (simp only: dq)
    then have "1 \<le> d" by simp
    then have "(1::rat) \<le> of_int d" by simp
    then have "1 \<le> 2 * of_nat n * (of_int j + 1 / 2 - q)" by (simp only: dq)
    also have "\<dots> \<le> 2 * of_nat n * (u / 2)"
      using near n0 by (intro mult_left_mono) simp_all
    also have "\<dots> = of_nat n * u" by simp
    finally show False using nu by simp
  qed
  with fl roundHalfEven_bounds [of t] have "g < H2" by (simp add: g_def)
  then have "(of_int g :: rat) < of_int H2" by simp
  then have "of_int g * u < of_int H2 * u" using u0 by simp
  then have upper: "y < of_int j + 1 / 2" by (simp only: H2u y_def)
  have fy: "\<lfloor>y + 1 / 2\<rfloor> = j"
    by (rule floor_unique) (use lower upper in simp_all)
  have "\<bar>of_int j :: rat\<bar> \<le> \<bar>q\<bar> + 1"
    using h1 h2 by linarith
  with q52 lower upper have "\<bar>y\<bar> < 2 ^ 52 + 2" by linarith
  then have "\<bar>y\<bar> < 2 ^ 53" by simp
  from binaryExponent_less_1024 [OF this] q0
  have "roundToDouble q = Finite y"
    unfolding roundToDouble_def Let_def y_def g_def t_def u_def k_def by simp
  with fy show ?thesis unfolding q_def j_def by blast
qed

lemma jsAdd_Ints:
  assumes "a \<in> \<int>" "b \<in> \<int>" "\<bar>a + b\<bar> < 2 ^ 53"
  shows "jsAdd (Finite a) (Finite b) = Finite (a + b)"
proof -
  from assms(1,2) have "a + b \<in> \<int>" by simp
  then obtain z :: int where z: "a + b = of_int z" by (auto elim: Ints_cases)
  with assms(3) have "(of_int \<bar>z\<bar> :: rat) < of_int (2 ^ 53)" by simp
  then have "\<bar>z\<bar> < 2 ^ 53" by (simp only: of_int_less_iff)
  from roundToDouble_of_int [OF this] z show ?thesis by (simp add: jsAdd_def)
qed

lemma foldl_jsAdd_Ints:
  assumes "\<forall>x \<in> set xs. x \<in> \<int>" and "a \<in> \<int>"
    and "\<bar>a\<bar> + (\<Sum>x\<leftarrow>xs. \<bar>x\<bar>) < 2 ^ 53"
  shows "foldl (\<lambda>s v. jsAdd s v) (Finite a) (map Finite xs) = Finite (a + sum_list xs)"
  using assms
proof (induction xs arbitrary: a)
  case Nil
  then show ?case by simp
next
  case (Cons x xs)
  have x: "x \<in> \<int>" using Cons.prems(1) by simp
  have b: "\<bar>a + x\<bar> \<le> \<bar>a\<bar> + \<bar>x\<bar>" by (rule abs_triangle_ineq)
  have nn: "0 \<le> (\<Sum>x\<leftarrow>xs. \<bar>x\<bar>)" by (rule sum_list_nonneg) auto
  from b nn Cons.prems(3) have "\<bar>a + x\<bar> < 2 ^ 53" by simp
  from jsAdd_Ints [OF Cons.prems(2) x this]
  have step: "jsAdd (Finite a) (Finite x) = Finite (a + x)" .
  have "foldl (\<lambda>s v. jsAdd s v) (Finite (a + x)) (map Finite xs)
          = Finite (a + x + sum_list xs)"
  proof (rule Cons.IH)
    show "\<forall>x \<in> set xs. x \<in> \<int>" using Cons.prems(1) by simp
    show "a + x \<in> \<int>" using Cons.prems(2) x by simp
    show "\<bar>a + x\<bar> + (\<Sum>x\<leftarrow>xs. \<bar>x\<bar>) < 2 ^ 53" using b Cons.prems(3) by simp
  qed
  with step show ?case by (simp add: add.assoc)
qed

lemma abs_sum_list_le: "\<bar>sum_list xs\<bar> \<le> (\<Sum>x\<leftarrow>xs. \<bar>x\<bar>)" for xs :: "rat list"
  by (induction xs) (simp_all add: abs_triangle_ineq [THEN order_trans])

lemma Math_round_mean:
  assumes "s \<in> \<int>" "\<bar>s\<bar> < 2 ^ 52" "0 < n" "n < 2 ^ 32"
  shows "Math_round (divideByLength (Finite s) n) = Finite (of_int \<lfloor>s / of_nat n + 1 / 2\<rfloor>)"
proof -
  from assms(1) obtain z :: int where z: "s = of_int z" by (auto elim: Ints_cases)
  with assms(2) have "(of_int \<bar>z\<bar> :: rat) < of_int (2 ^ 52)" by simp
  then have "\<bar>z\<bar> < 2 ^ 52" by (simp only: of_int_less_iff)
  from roundToDouble_quotient [OF assms(3,4) this] z show ?thesis
    by (auto simp: divideByLength_def)
qed

subsection \<open>Risk-list normalization\<close>

lemma normalizeRisksResponse_unfold:
  "normalizeRisksResponse raw =
     (if \<not> truthy raw then Inr empty_response
      else if isArray (getProp raw ''risks'') \<or> isArray raw then normalizeRisksArray raw
      else (case getProp raw ''risks'' of
              Obj kvs \<Rightarrow> normalizeRisksArray (Arr (objectValues kvs))
            | _ \<Rightarrow> Inr empty_response))"
  apply (subst normalizeRisksResponse.simps)
  apply (cases "getProp raw ''risks''")
        apply simp_all
  apply (subst normalizeRisksResponse.simps)
  apply simp
  done

lemma computeDocumentLevel_Nil: "computeDocumentLevel [] = DocumentLevel_js 0 ''Low'' 0 0 0"
  by (simp add: computeDocumentLevel_def)

lemma normalizeRisksResponse_eq:
  "normalizeRisksResponse raw =
     (case candidatesAndAggregate raw of
        Inl e \<Rightarrow> Inl e
      | Inr (arr, supplied) \<Rightarrow>
          (case mapRisks 0 arr of
             Inl e \<Rightarrow> Inl e
           | Inr rs \<Rightarrow>
               Inr \<lparr>risks = rs,
                    document_level =
                      (if \<not> truthy supplied then computeDocumentLevel rs else supplied)\<rparr>))"
  by (cases "getProp raw ''risks''")
     (simp_all add: normalizeRisksResponse_unfold candidatesAndAggregate_def
        normalizeRisksArray_def empty_response_def computeDocumentLevel_Nil)

lemma normalizeRisksResponse_Inr:
  assumes "candidatesAndAggregate raw = Inr (arr, supplied)"
    and "normalizeRisksResponse raw = Inr res"
  shows "mapRisks 0 arr = Inr (risks res)"
    and "document_level res =
           (if \<not> truthy supplied then computeDocumentLevel (risks res) else supplied)"
  using assms by (auto simp: normalizeRisksResponse_eq split: sum.splits)

lemma mapRisks_length: "mapRisks i rs = Inr items \<Longrightarrow> length items = length rs"
  by (induction rs arbitrary: i items) (auto split: sum.splits)

lemma mapRisks_nth:
  "mapRisks i rs = Inr items \<Longrightarrow> k < length rs \<Longrightarrow> mapRisk (rs ! k) (i + k) = Inr (items ! k)"
proof (induction rs arbitrary: i items k)
  case Nil
  then show ?case by simp
next
  case (Cons r rs)
  from Cons.prems(1) obtain item rest where
    h: "mapRisk r i = Inr item" "mapRisks (Suc i) rs = Inr rest" "items = item # rest"
    by (auto split: sum.splits)
  show ?case
  proof (cases k)
    case 0
    with h show ?thesis by simp
  next
    case (Suc j)
    with Cons.prems(2) have "j < length rs" by simp
    from Cons.IH [OF h(2) this] Suc h(3) show ?thesis by simp
  qed
qed



lemma mapRisk_score: "mapRisk r i = Inr item \<Longrightarrow> severity_score item = numericOf r"
  by (auto simp: mapRisk_def split: if_splits)

lemma mapRisks_score_nth:
  assumes "mapRisks 0 arr = Inr items" and "k < length arr"
  shows "severity_score (items ! k) = numericOf (arr ! k)"
  using mapRisks_nth [OF assms] mapRisk_score by simp


lemma Ints_not_ge_67: "s \<in> \<int> \<Longrightarrow> (\<not> 67 \<le> (s::rat)) = (s \<le> 66)"
  by (auto elim!: Ints_cases)

lemma Ints_not_ge_34: "s \<in> \<int> \<Longrightarrow> (\<not> 34 \<le> (s::rat)) = (s \<le> 33)"
  by (auto elim!: Ints_cases)


lemma length_filter_scores:
  assumes "map severity_score rs = map Finite scores"
  shows "length (filter (\<lambda>r. P (severity_score r)) rs)
           = length (filter (\<lambda>x. P (Finite x)) scores)"
proof -
  have "length (filter (\<lambda>r. P (severity_score r)) rs)
          = length (filter P (map severity_score rs))"
    by (simp add: filter_map comp_def)
  also have "\<dots> = length (filter P (map Finite scores))" by (simp only: assms)
  also have "\<dots> = length (filter (\<lambda>x. P (Finite x)) scores)"
    by (simp add: filter_map comp_def)
  finally show ?thesis .
qed

text \<open>
  The aggregate in exact terms, where the double arithmetic of the code is exact: the
  scores are finite integers, their magnitudes add up to less than \<open>2\<^sup>5\<^sup>2\<close>, and the
  array is no longer than a JavaScript array can be.
\<close>

lemma computeDocumentLevel_exact:
  assumes m: "map severity_score rs = map Finite scores"
    and ints: "\<forall>x \<in> set scores. x \<in> \<int>"
    and small: "(\<Sum>x\<leftarrow>scores. \<bar>x\<bar>) < 2 ^ 52"
    and len: "length scores < 2 ^ 32"
  shows "computeDocumentLevel rs =
    (let score = (if scores = [] then 0
                  else of_int \<lfloor>sum_list scores / of_nat (length scores) + 1 / 2\<rfloor>)
     in DocumentLevel_js (Finite score)
          (if score \<le> 33 then ''Low'' else if score \<le> 66 then ''Medium'' else ''High'')
          (length (filter (\<lambda>s. 67 \<le> s) scores))
          (length (filter (\<lambda>s. 34 \<le> s \<and> s \<le> 66) scores))
          (length (filter (\<lambda>s. s \<le> 33) scores)))"
proof -
  have l: "length rs = length scores"
    using m by (metis length_map)
  have "\<bar>0::rat\<bar> + (\<Sum>x\<leftarrow>scores. \<bar>x\<bar>) < 2 ^ 53" using small by simp
  from foldl_jsAdd_Ints [OF ints _ this]
  have sum: "foldl (\<lambda>s v. jsAdd s v) 0 (map severity_score rs) = Finite (sum_list scores)"
    by (simp add: m)
  have sInts: "sum_list scores \<in> \<int>"
    using ints by (induction scores) simp_all
  have sAbs: "\<bar>sum_list scores\<bar> < 2 ^ 52"
    using abs_sum_list_le [of scores] small by simp
  have mean: "Math_round (divideByLength (Finite (sum_list scores)) (length scores))
        = Finite (of_int \<lfloor>sum_list scores / of_nat (length scores) + 1 / 2\<rfloor>)"
    if "scores \<noteq> []"
    using that by (intro Math_round_mean sInts sAbs len) simp
  have a: "length (filter (\<lambda>r. jsLessEq 67 (severity_score r)) rs)
         = length (filter (\<lambda>s. 67 \<le> s) scores)"
    using length_filter_scores [OF m, of "\<lambda>n. jsLessEq 67 n"] by simp
  have "filter (\<lambda>x. \<not> 67 \<le> x \<and> 34 \<le> x) scores = filter (\<lambda>s. 34 \<le> s \<and> s \<le> 66) scores"
    using ints by (intro filter_cong) (auto simp: Ints_not_ge_67)
  then have b: "length (filter (\<lambda>r. \<not> jsLessEq 67 (severity_score r)
                                  \<and> jsLessEq 34 (severity_score r)) rs)
         = length (filter (\<lambda>s. 34 \<le> s \<and> s \<le> 66) scores)"
    using length_filter_scores [OF m, of "\<lambda>n. \<not> jsLessEq 67 n \<and> jsLessEq 34 n"] by simp
  have "filter (\<lambda>x. \<not> 67 \<le> x \<and> \<not> 34 \<le> x) scores = filter (\<lambda>s. s \<le> 33) scores"
    using ints by (intro filter_cong) (auto simp: Ints_not_ge_67 Ints_not_ge_34)
  then have c: "length (filter (\<lambda>r. \<not> jsLessEq 67 (severity_score r)
                                  \<and> \<not> jsLessEq 34 (severity_score r)) rs)
         = length (filter (\<lambda>s. s \<le> 33) scores)"
    using length_filter_scores [OF m, of "\<lambda>n. \<not> jsLessEq 67 n \<and> \<not> jsLessEq 34 n"] by simp
  show ?thesis
  proof (cases "scores = []")
    case True
    with m show ?thesis by (simp add: computeDocumentLevel_def)
  next
    case False
    with l have "length rs \<noteq> 0" by simp
    with False show ?thesis
      unfolding computeDocumentLevel_def Let_def a b c sum
      by (simp add: mean l)
  qed
qed

text \<open>
  C1. The claim: risk-list normalization returns without raising on every JSON value,
  arrays with null elements among them. The code raises on the array \<^verbatim>\<open>[null]\<close>: the
  test \<^verbatim>\<open>typeof last === 'object'\<close> of line 175 holds of null, and \<^verbatim>\<open>in\<close> then raises
  TypeError.
\<close>

theorem normalizeRisksResponse_null_element_raises:
  "normalizeRisksResponse (Arr [Null]) = Inl TypeError"
  by (simp add: normalizeRisksResponse_unfold normalizeRisksArray_def takeDocumentLevel_def)




lemma numericOf_not_number:
  "\<not> isNumber (getProp r ''severity_score'') \<Longrightarrow>
   numericOf r =
     (case providedOf r of
        Str lbl \<Rightarrow>
          if strIncludes (toLowerCase lbl) ''high'' then 85
          else if strIncludes (toLowerCase lbl) ''medium'' then 50 else 15
      | _ \<Rightarrow> 15)"
  by (cases "getProp r ''severity_score''")
     (simp_all add: numericOf_def Let_def split: jsval.splits)

text \<open>
  C4. A candidate whose \<^verbatim>\<open>severity_score\<close> is not a number gets its score from the
  label, which is \<^verbatim>\<open>provided_severity\<close>, else \<^verbatim>\<open>severity_level\<close>, else \<^verbatim>\<open>'Low'\<close>: 85
  when the lower-cased label includes \<^verbatim>\<open>high\<close>, otherwise 50 when it includes
  \<^verbatim>\<open>medium\<close>, otherwise 15 (also for a label that is no string).
\<close>

theorem severity_score_from_label:
  assumes "normalizeRisksResponse raw = Inr res"
    and "candidatesAndAggregate raw = Inr (arr, supplied)"
    and "i < length arr"
    and "\<not> isNumber (getProp (arr ! i) ''severity_score'')"
  shows "length (risks res) = length arr \<and>
         severity_score (risks res ! i) =
           (case coalesce (getProp (arr ! i) ''provided_severity'')
                   (coalesce (getProp (arr ! i) ''severity_level'') (Str ''Low'')) of
              Str lbl \<Rightarrow>
                if strIncludes (toLowerCase lbl) ''high'' then 85
                else if strIncludes (toLowerCase lbl) ''medium'' then 50 else 15
            | _ \<Rightarrow> 15)"
proof -
  note r = normalizeRisksResponse_Inr [OF assms(2) assms(1)]
  from mapRisks_length [OF r(1)] mapRisks_score_nth [OF r(1) assms(3)]
    numericOf_not_number [OF assms(4)]
  show ?thesis by (simp add: providedOf_def)
qed

theorem severity_score_from_label_witness:
  "normalizeRisksResponse (Obj [(''risks'', Arr [Obj [(''provided_severity'', Str ''Medium'')]])])
   = Inr \<lparr>risks =
       [\<lparr>item_id = Str ''risk-0'', provided_severity = Str ''Medium'',
         severity_level = Str ''Medium'', severity_score = 50, snippet = Str '''',
         label = Undefined, short_risk = Str ''Potential risk'', explanation = Str '''',
         recommendations = Arr [],
         citation = Obj [(''page'', Null), (''start'', Null), (''end'', Null)]\<rparr>],
      document_level = DocumentLevel_js 50 ''Medium'' 0 1 0\<rparr>
   \<and> candidatesAndAggregate
         (Obj [(''risks'', Arr [Obj [(''provided_severity'', Str ''Medium'')]])])
       = Inr ([Obj [(''provided_severity'', Str ''Medium'')]], Undefined)
   \<and> (0::nat) < length [Obj [(''provided_severity'', Str ''Medium'')]]
   \<and> \<not> isNumber (getProp ([Obj [(''provided_severity'', Str ''Medium'')]] ! 0) ''severity_score'')"
  (is "?n \<and> ?c \<and> ?l \<and> ?s")
proof -
  have n: ?n by code_simp
  have c: ?c by (simp add: candidatesAndAggregate_def takeDocumentLevel_def)
  have l: ?l by simp
  have s: ?s by simp
  from severity_score_from_label [OF n c l s] n c l s
  show ?thesis by blast
qed

lemma round_range:
  "(0 \<le> \<lfloor>x + 1 / 2 :: rat\<rfloor> \<and> \<lfloor>x + 1 / 2\<rfloor> \<le> 100) = (- 1 / 2 \<le> x \<and> x < 201 / 2)"
proof -
  have a: "(0 \<le> \<lfloor>x + 1 / 2\<rfloor>) = (- 1 / 2 \<le> x)"
    by (simp add: zero_le_floor) linarith
  have b: "(\<lfloor>x + 1 / 2\<rfloor> \<le> 100) = (x < 201 / 2)"
    by (simp add: floor_le_iff) linarith
  from a b show ?thesis by simp
qed

lemma numericOf_cases:
  "(case getProp r ''severity_score'' of
      Num n \<Rightarrow> numericOf r = Math_round n
    | _ \<Rightarrow> numericOf r \<in> {15, 50, 85})"
  by (cases "getProp r ''severity_score''")
     (auto simp: numericOf_def Let_def split: jsval.splits)

text \<open>
  C8, as the code has it. Every item of the result has a score: the supplied number
  rounded, or 15, 50 or 85 when the candidate supplies no number. For a finite supplied
  number the score is an integer, and it is within 0 to 100 exactly when that number is
  at least -0.5 and below 100.5; the code rounds and does not clamp. An infinity (what
  a literal beyond the range of doubles decodes to) or NaN stays as it is.
\<close>

theorem severity_score_integer:
  assumes "normalizeRisksResponse raw = Inr res"
    and "candidatesAndAggregate raw = Inr (arr, supplied)"
  shows "length (risks res) = length arr \<and>
         (\<forall>i < length arr.
            case getProp (arr ! i) ''severity_score'' of
              Num (Finite x) \<Rightarrow>
                severity_score (risks res ! i) = Finite (of_int \<lfloor>x + 1 / 2\<rfloor>) \<and>
                ((0 \<le> \<lfloor>x + 1 / 2\<rfloor> \<and> \<lfloor>x + 1 / 2\<rfloor> \<le> 100) = (- 1 / 2 \<le> x \<and> x < 201 / 2))
            | Num n \<Rightarrow> severity_score (risks res ! i) = n
            | _ \<Rightarrow> severity_score (risks res ! i) \<in> {15, 50, 85})"
proof -
  note r = normalizeRisksResponse_Inr [OF assms(2) assms(1)]
  have "case getProp (arr ! i) ''severity_score'' of
              Num (Finite x) \<Rightarrow>
                severity_score (risks res ! i) = Finite (of_int \<lfloor>x + 1 / 2\<rfloor>) \<and>
                ((0 \<le> \<lfloor>x + 1 / 2\<rfloor> \<and> \<lfloor>x + 1 / 2\<rfloor> \<le> 100) = (- 1 / 2 \<le> x \<and> x < 201 / 2))
            | Num n \<Rightarrow> severity_score (risks res ! i) = n
            | _ \<Rightarrow> severity_score (risks res ! i) \<in> {15, 50, 85}" if "i < length arr" for i
  proof (cases "getProp (arr ! i) ''severity_score''")
    case (Num n)
    with numericOf_cases [of "arr ! i"] mapRisks_score_nth [OF r(1) that]
    have "severity_score (risks res ! i) = Math_round n" by simp
    with Num show ?thesis
    proof (cases n)
      case (Finite x)
      with Num \<open>severity_score (risks res ! i) = Math_round n\<close> round_range [of x]
      show ?thesis by simp
    qed simp_all
  qed (use numericOf_cases [of "arr ! i"] mapRisks_score_nth [OF r(1) that] in simp_all)
  then show ?thesis using mapRisks_length [OF r(1)] by blast
qed

theorem severity_score_integer_witness:
  "normalizeRisksResponse (Arr [Obj [(''severity_score'', Num (Finite (151 / 2)))]])
   = Inr \<lparr>risks =
       [\<lparr>item_id = Str ''risk-0'', provided_severity = Str ''Low'',
         severity_level = Str ''Low'', severity_score = 76, snippet = Str '''',
         label = Undefined, short_risk = Str ''Potential risk'', explanation = Str '''',
         recommendations = Arr [],
         citation = Obj [(''page'', Null), (''start'', Null), (''end'', Null)]\<rparr>],
      document_level = DocumentLevel_js 76 ''High'' 1 0 0\<rparr>
   \<and> candidatesAndAggregate (Arr [Obj [(''severity_score'', Num (Finite (151 / 2)))]])
       = Inr ([Obj [(''severity_score'', Num (Finite (151 / 2)))]], Undefined)"
  (is "?n \<and> ?c")
proof -
  have n: ?n by code_simp
  have c: ?c by (simp add: candidatesAndAggregate_def takeDocumentLevel_def)
  from severity_score_integer [OF n c] n c
  show ?thesis by blast
qed

text \<open>
  C8, as the claim states it, fails for a supplied score outside 0 to 100: the score
  150 stays 150.
\<close>

theorem severity_score_out_of_range:
  "map_sum id (\<lambda>res. map (\<lambda>r. jsLessEq 0 (severity_score r) \<and> jsLessEq (severity_score r) 100)
                        (risks res))
     (normalizeRisksResponse (Arr [Obj [(''severity_score'', Num 150)]])) = Inr [False]
   \<and> map_sum id (\<lambda>res. map severity_score (risks res))
     (normalizeRisksResponse (Arr [Obj [(''severity_score'', Num 150)]])) = Inr [150]"
  by code_simp

lemma severity_score_infinity_stays:
  "map_sum id (\<lambda>res. map severity_score (risks res))
     (normalizeRisksResponse (Arr [Obj [(''severity_score'', Num PosInfinity)]]))
   = Inr [PosInfinity]"
  by code_simp

subsection \<open>Summary normalization\<close>

text \<open>
  C2. The claim: summary normalization returns on every JSON value, with an array
  \<^verbatim>\<open>points\<close> and a string \<^verbatim>\<open>executive_summary\<close>. The code raises on an object whose
  \<^verbatim>\<open>summary\<close> is truthy and no string: line 115 tests the truth of \<^verbatim>\<open>raw.summary\<close> only
  and calls \<^verbatim>\<open>splitIntoPoints\<close>, where \<^verbatim>\<open>summary.split\<close> is no function.
\<close>

theorem normalizeSummarizeResponse_number_summary_raises:
  "normalizeSummarizeResponse (Obj [(''executive_summary'', Str ''x''), (''summary'', Num 5)])
   = Inl TypeError"
  by (simp add: normalizeSummarizeResponse_def isStructured_def normalizeStructured_def
        splitIntoPoints_def pointsArray_def)

lemma normalizeSummarizeResponse_passes_types_through:
  "map_sum id executive_summary
     (normalizeSummarizeResponse (Obj [(''executive_summary'', Num 5)])) = Inr (Num 5)"
  "map_sum id points
     (normalizeSummarizeResponse (Obj [(''points'', Str ''abc'')])) = Inr (Str ''abc'')"
  by (simp_all add: normalizeSummarizeResponse_def isStructured_def normalizeStructured_def
        coalesce_def)

text \<open>
  C10. On the structured branch (a truthy \<^verbatim>\<open>executive_summary\<close> or an array
  \<^verbatim>\<open>points\<close>) the result's \<^verbatim>\<open>key_clauses\<close> is the empty array, whatever the input's
  \<^verbatim>\<open>key_clauses\<close> is.
\<close>

theorem structured_key_clauses_empty:
  assumes "truthy raw"
    and "isStructured raw"
    and "normalizeSummarizeResponse raw = Inr res"
  shows "key_clauses res = Arr []"
  using assms
  by (auto simp: normalizeSummarizeResponse_def normalizeStructured_def split: sum.splits)

theorem structured_key_clauses_empty_witness:
  "truthy (Obj [(''executive_summary'', Str ''Lease.''),
                (''key_clauses'', Arr [Obj [(''title'', Str ''Rent'')]])])
   \<and> isStructured (Obj [(''executive_summary'', Str ''Lease.''),
                (''key_clauses'', Arr [Obj [(''title'', Str ''Rent'')]])])
   \<and> normalizeSummarizeResponse (Obj [(''executive_summary'', Str ''Lease.''),
                (''key_clauses'', Arr [Obj [(''title'', Str ''Rent'')]])])
     = Inr \<lparr>doc_id = Undefined, executive_summary = Str ''Lease.'', points = Arr [],
            key_clauses = Arr [], purpose = Null, rag_corpus = Null, fallback = False,
            debug = Undefined, summary = Str ''Lease.''\<rparr>"
  (is "?t \<and> ?s \<and> ?n")
proof -
  have t: ?t by simp
  have s: ?s by (simp add: isStructured_def)
  have n: ?n
    by (simp add: normalizeSummarizeResponse_def isStructured_def normalizeStructured_def
          coalesce_def)
  from structured_key_clauses_empty [OF t s n] t s n
  show ?thesis by blast
qed

lemma splitIntoPoints_Str:
  "splitIntoPoints (Str s) n =
     Inr (let sentences = filter (\<lambda>x. 10 < length x) (map trim (splitSentences s));
              parts = filter (\<lambda>x. x \<noteq> []) (map trim (splitList s))
          in if s = [] then []
             else if 2 \<le> length sentences
               then map (\<lambda>x. trim (collapseSpaces x)) (take n sentences)
             else if 2 \<le> length parts
               then map (\<lambda>x. trim (collapseSpaces x)) (take n parts)
             else [trim s])"
  by (simp add: splitIntoPoints_def Let_def Suc_le_eq)

text \<open>
  C7, as the code has it. For a payload that has only a flat \<^verbatim>\<open>summary\<close> string, the
  points are: the trimmed sentence fragments longer than 10 code units, when there are
  at least 2 (the first 10, white space collapsed); otherwise the non-empty trimmed
  fragments between commas and semicolons, when there are at least 2 (the first 10);
  otherwise the trimmed string as the one point. There are at most 10 points, and at
  least one when the string is not empty.
\<close>

theorem legacy_summary_points:
  assumes "truthy raw"
    and "\<not> isStructured raw"
    and "getProp raw ''summary'' = Str s"
  shows "\<exists>res pts.
           normalizeSummarizeResponse raw = Inr res \<and>
           executive_summary res = Str s \<and>
           points res = Arr (map Str pts) \<and>
           length pts \<le> 10 \<and>
           (s \<noteq> [] \<longrightarrow> pts \<noteq> []) \<and>
           (let sentences = filter (\<lambda>x. 10 < length x) (map trim (splitSentences s));
                parts = filter (\<lambda>x. x \<noteq> []) (map trim (splitList s))
            in pts =
                 (if s = [] then []
                  else if 2 \<le> length sentences
                    then map (\<lambda>x. trim (collapseSpaces x)) (take 10 sentences)
                  else if 2 \<le> length parts
                    then map (\<lambda>x. trim (collapseSpaces x)) (take 10 parts)
                  else [trim s]))"
proof -
  define sentences where
    "sentences = filter (\<lambda>x. 10 < length x) (map trim (splitSentences s))"
  define parts where "parts = filter (\<lambda>x. x \<noteq> []) (map trim (splitList s))"
  define pts where "pts =
     (if s = [] then []
      else if 2 \<le> length sentences
        then map (\<lambda>x. trim (collapseSpaces x)) (take 10 sentences)
      else if 2 \<le> length parts
        then map (\<lambda>x. trim (collapseSpaces x)) (take 10 parts)
      else [trim s])"
  have split: "splitIntoPoints (Str s) 10 = Inr pts"
    unfolding pts_def sentences_def parts_def
    by (simp add: splitIntoPoints_Str Let_def)
  have len: "length pts \<le> 10"
    unfolding pts_def by simp
  have ne: "s \<noteq> [] \<longrightarrow> pts \<noteq> []"
    unfolding pts_def by auto
  have ladder: "(let sentences = filter (\<lambda>x. 10 < length x) (map trim (splitSentences s));
                parts = filter (\<lambda>x. x \<noteq> []) (map trim (splitList s))
            in pts =
                 (if s = [] then []
                  else if 2 \<le> length sentences
                    then map (\<lambda>x. trim (collapseSpaces x)) (take 10 sentences)
                  else if 2 \<le> length parts
                    then map (\<lambda>x. trim (collapseSpaces x)) (take 10 parts)
                  else [trim s]))"
    unfolding Let_def pts_def sentences_def parts_def by (rule refl)
  define res where "res =
            \<lparr>doc_id = getProp raw ''doc_id'',
             executive_summary = Str s,
             points = Arr (map Str pts),
             key_clauses = Arr [],
             purpose = coalesce (getProp raw ''purpose'') Null,
             rag_corpus = coalesce (getProp raw ''rag_corpus'')
                            (coalesce (getProp raw ''corpus_name'') Null),
             fallback = truthy (getProp raw ''fallback''),
             debug = coalesce (getProp raw ''debug'') Undefined,
             summary = Str s\<rparr>"
  have n: "normalizeSummarizeResponse raw = Inr res"
    unfolding res_def using assms split
    by (simp add: normalizeSummarizeResponse_def pointsArray_def)
  have e: "executive_summary res = Str s" and p: "points res = Arr (map Str pts)"
    by (simp_all add: res_def)
  from n e p len ne ladder show ?thesis
    by (intro exI [of _ res] exI [of _ pts] conjI)
qed

theorem legacy_summary_points_witness:
  "truthy (Obj [(''summary'', Str ''Tenant must pay rent by the 1st. Late fees apply after a 5-day grace period. Deposit is non-refundable.'')])
   \<and> \<not> isStructured (Obj [(''summary'', Str ''Tenant must pay rent by the 1st. Late fees apply after a 5-day grace period. Deposit is non-refundable.'')])
   \<and> getProp (Obj [(''summary'', Str ''Tenant must pay rent by the 1st. Late fees apply after a 5-day grace period. Deposit is non-refundable.'')]) ''summary''
       = Str ''Tenant must pay rent by the 1st. Late fees apply after a 5-day grace period. Deposit is non-refundable.''
   \<and> map_sum id points (normalizeSummarizeResponse (Obj [(''summary'', Str ''Tenant must pay rent by the 1st. Late fees apply after a 5-day grace period. Deposit is non-refundable.'')]))
       = Inr (Arr [Str ''Tenant must pay rent by the 1st.'',
                   Str ''Late fees apply after a 5-day grace period.'',
                   Str ''Deposit is non-refundable.''])"
  (is "?t \<and> ?s \<and> ?g \<and> ?n")
proof -
  have t: ?t by simp
  have s: ?s by (simp add: isStructured_def)
  have g: ?g by simp
  have n: ?n by code_simp
  from legacy_summary_points [OF t s g] t s g n
  show ?thesis by blast
qed

text \<open>
  C7, as the claim states it, fails in step (c): a string of 130 code units without
  terminators, commas or semicolons is one point of 130 code units, not windows of 120.
  The windows are what the dashboard's \<^verbatim>\<open>formatSummaryPoints\<close> makes of it.
\<close>

theorem legacy_summary_not_chunked:
  "map_sum id points
     (normalizeSummarizeResponse (Obj [(''summary'', Str (replicate 130 (CHR ''a'')))]))
     = Inr (Arr [Str (replicate 130 (CHR ''a''))])
   \<and> formatSummaryPoints (Str (replicate 130 (CHR ''a'')))
     = Inr [replicate 120 (CHR ''a''), replicate 10 (CHR ''a'')]"
  by code_simp

subsection \<open>The heuristic synthesizer\<close>


lemma summaryScan_nothing_found:
  "findKeywords summaryText = [] \<Longrightarrow> summaryScan summaryText st = st"
  by (simp add: summaryScan_def)

lemma pointsScan_nothing_found:
  "\<forall>p \<in> set pts. findKeywords p = [] \<Longrightarrow> pointsScan i pts st = st"
  by (induction pts arbitrary: i) simp_all

text \<open>
  C5. The synthesizer returns at least one item for every summary text and every list
  of points; when no category is found in the summary or in any point, it returns the
  one generic item, with score 10, severity \<^verbatim>\<open>Low\<close> and the label
  \<^verbatim>\<open>No obvious high-risk clauses detected\<close>.
\<close>

theorem generateHeuristicRisks_never_empty:
  "risks (generateHeuristicRisks summaryText pts) \<noteq> [] \<and>
   (findKeywords summaryText = [] \<and> (\<forall>p \<in> set pts. findKeywords p = []) \<longrightarrow>
      risks (generateHeuristicRisks summaryText pts) = [genericRisk summaryText pts] \<and>
      severity_score (genericRisk summaryText pts) = 10 \<and>
      provided_severity (genericRisk summaryText pts) = Str ''Low'' \<and>
      label (genericRisk summaryText pts) = Str ''No obvious high-risk clauses detected'')"
proof -
  have "risks (generateHeuristicRisks summaryText pts) \<noteq> []"
    by (simp add: generateHeuristicRisks_def Let_def)
  moreover have "risks (generateHeuristicRisks summaryText pts) = [genericRisk summaryText pts]"
    if "findKeywords summaryText = []" and "\<forall>p \<in> set pts. findKeywords p = []"
    using that
    by (simp add: generateHeuristicRisks_def Let_def summaryScan_nothing_found
          pointsScan_nothing_found)
  moreover have "severity_score (genericRisk summaryText pts) = 10"
    and "provided_severity (genericRisk summaryText pts) = Str ''Low''"
    and "label (genericRisk summaryText pts) = Str ''No obvious high-risk clauses detected''"
    by (simp_all add: genericRisk_def)
  ultimately show ?thesis by blast
qed

theorem generateHeuristicRisks_never_empty_witness:
  "findKeywords ''Rent is due monthly.'' = []
   \<and> findKeywords ''Pets are allowed.'' = []
   \<and> risks (generateHeuristicRisks ''Rent is due monthly.'' [''Pets are allowed.''])
       = [genericRisk ''Rent is due monthly.'' [''Pets are allowed.'']]"
proof -
  have a: "findKeywords ''Rent is due monthly.'' = []" by code_simp
  have b: "findKeywords ''Pets are allowed.'' = []" by code_simp
  from generateHeuristicRisks_never_empty
         [of "''Rent is due monthly.''" "[''Pets are allowed.'']"] a b
  show ?thesis by simp
qed

lemma findKeywords_subset: "set (findKeywords text) \<subseteq> fst ` set kws"
  by (auto simp: findKeywords_def Let_def)

lemma kws_no_dash: "tag \<in> fst ` set kws \<Longrightarrow> CHR ''-'' \<notin> set tag"
  by (auto simp: kws_def)

lemma category_after_last_dash:
  assumes "CHR ''-'' \<notin> set tag"
  shows "rev (takeWhile (\<lambda>c. c \<noteq> CHR ''-'') (rev (pre @ ''-'' @ tag))) = tag"
proof -
  have "takeWhile (\<lambda>c. c \<noteq> CHR ''-'') (rev tag @ CHR ''-'' # rev pre) = rev tag"
    using assms by (subst takeWhile_append2) auto
  then show ?thesis by simp
qed

lemma categoryOf_summaryRisk:
  "CHR ''-'' \<notin> set tag \<Longrightarrow> categoryOf (summaryRisk summaryText tag) = tag"
  using category_after_last_dash [of tag "''heuristic''"]
  by (simp add: categoryOf_def summaryRisk_def Let_def)

lemma categoryOf_pointRisk:
  "CHR ''-'' \<notin> set tag \<Longrightarrow> categoryOf (pointRisk i pt tag) = tag"
  using category_after_last_dash [of tag "''heuristic-point-'' @ decimal i"]
  by (simp add: categoryOf_def pointRisk_def Let_def)

lemma scanInvariant_push:
  assumes "scanInvariant st" and "tag \<in> fst ` set kws" and "tag \<notin> snd st"
    and "categoryOf item = tag"
  shows "scanInvariant (fst st @ [item], insert tag (snd st))"
  using assms unfolding scanInvariant_def by auto

lemma scanInvariant_summaryStep:
  assumes "scanInvariant st" and "tag \<in> fst ` set kws"
  shows "scanInvariant (summaryStep summaryText st tag)"
  using assms scanInvariant_push [OF assms(1) assms(2) _ categoryOf_summaryRisk [OF kws_no_dash [OF assms(2)]]]
  by (simp add: summaryStep_def)

lemma scanInvariant_pointStep:
  assumes "scanInvariant st" and "tag \<in> fst ` set kws"
  shows "scanInvariant (pointStep i pt st tag)"
  using assms scanInvariant_push [OF assms(1) assms(2) _ categoryOf_pointRisk [OF kws_no_dash [OF assms(2)]]]
  by (simp add: pointStep_def)

lemma scanInvariant_foldl:
  assumes "\<And>st tag. scanInvariant st \<Longrightarrow> tag \<in> fst ` set kws \<Longrightarrow> scanInvariant (step st tag)"
    and "scanInvariant st" and "set tags \<subseteq> fst ` set kws"
  shows "scanInvariant (foldl step st tags)"
  using assms(2,3)
proof (induction tags arbitrary: st)
  case Nil
  then show ?case by simp
next
  case (Cons tag tags)
  from Cons.prems have "scanInvariant (step st tag)" by (intro assms(1)) auto
  with Cons show ?case by simp
qed

lemma scanInvariant_summaryScan:
  "scanInvariant st \<Longrightarrow> scanInvariant (summaryScan summaryText st)"
  unfolding summaryScan_def
  by (simp add: scanInvariant_foldl [OF scanInvariant_summaryStep] findKeywords_subset)

lemma scanInvariant_pointsScan:
  "scanInvariant st \<Longrightarrow> scanInvariant (pointsScan i pts st)"
proof (induction pts arbitrary: i st)
  case Nil
  then show ?case by simp
next
  case (Cons pt pts)
  have "scanInvariant (foldl (pointStep i pt) st (findKeywords pt))"
    using Cons.prems
    by (intro scanInvariant_foldl [OF scanInvariant_pointStep] findKeywords_subset)
  from Cons.IH [OF this] Cons.prems show ?case by simp
qed

lemma categoryOf_genericRisk: "categoryOf (genericRisk summaryText pts) = ''none''"
  by (simp add: categoryOf_def genericRisk_def)

text \<open>
  C6. In one run of the synthesizer no category has two items: the categories the
  items were emitted for (the end of each \<^verbatim>\<open>id\<close>) are pairwise different, over the
  summary scan and the scan of the points together. Each is a category of the table, or
  \<^verbatim>\<open>none\<close> for the generic item.
\<close>

theorem generateHeuristicRisks_one_item_per_category:
  "distinct (map categoryOf (risks (generateHeuristicRisks summaryText pts))) \<and>
   categoryOf ` set (risks (generateHeuristicRisks summaryText pts))
     \<subseteq> insert ''none'' (fst ` set kws)"
proof -
  have "scanInvariant ([], {})" by (simp add: scanInvariant_def)
  then have inv: "scanInvariant (pointsScan 0 pts (summaryScan summaryText ([], {})))"
    by (intro scanInvariant_pointsScan scanInvariant_summaryScan)
  show ?thesis
  proof (cases "fst (pointsScan 0 pts (summaryScan summaryText ([], {}))) = []")
    case True
    then show ?thesis
      by (simp add: generateHeuristicRisks_def Let_def categoryOf_genericRisk)
  next
    case False
    with inv show ?thesis
      by (auto simp: generateHeuristicRisks_def Let_def scanInvariant_def)
  qed
qed

subsection \<open>Normalizing a normalized value\<close>

lemma Math_round_twice: "Math_round (Math_round n) = Math_round n"
proof (cases n)
  case (Finite x)
  have "\<lfloor>of_int \<lfloor>x + 1 / 2\<rfloor> + 1 / 2 :: rat\<rfloor> = \<lfloor>x + 1 / 2\<rfloor>"
    by (rule floor_unique) simp_all
  with Finite show ?thesis by simp
qed simp_all

lemma Math_round_numeral: "Math_round (Finite (numeral k)) = Finite (numeral k)"
proof -
  have "\<lfloor>of_int z + 1 / 2 :: rat\<rfloor> = z" for z
    by (rule floor_unique) simp_all
  from this [of "numeral k"] show ?thesis by simp
qed

lemma numericOf_rounded: "Math_round (numericOf r) = numericOf r"
  by (auto simp: numericOf_def Let_def Math_round_twice Math_round_numeral
        simp del: Math_round.simps split: jsval.splits)

lemma mapRisk_normal_form:
  assumes "mapRisk r i = Inr x"
  shows "\<not> nullish (item_id x)" "\<not> nullish (provided_severity x)"
    "\<not> nullish (severity_level x)" "Math_round (severity_score x) = severity_score x"
    "\<not> nullish (snippet x)"
    "label x \<noteq> Null" "\<not> nullish (short_risk x)" "\<not> nullish (explanation x)"
    "\<not> nullish (citation x)"
proof -
  from assms have x: "\<not> nullish r" "x = projr (mapRisk r i)"
    by (auto simp: mapRisk_def split: if_splits)
  show "\<not> nullish (item_id x)" using x by (simp add: mapRisk_def coalesce_def)
  show "\<not> nullish (provided_severity x)"
    using x by (simp add: mapRisk_def coalesce_def providedOf_def)
  show "\<not> nullish (severity_level x)"
    using x by (simp add: mapRisk_def coalesce_def providedOf_def)
  show "Math_round (severity_score x) = severity_score x"
    using x by (simp add: mapRisk_def numericOf_rounded)
  show "\<not> nullish (snippet x)" using x by (simp add: mapRisk_def coalesce_def)
  show "label x \<noteq> Null" using x by (auto simp: mapRisk_def coalesce_def)
  show "\<not> nullish (short_risk x)"
    using x by (cases "getProp r ''label''") (simp_all add: mapRisk_def coalesce_def)
  show "\<not> nullish (explanation x)" using x by (simp add: mapRisk_def coalesce_def)
  show "\<not> nullish (citation x)" using x by (simp add: mapRisk_def coalesce_def)
qed

lemma getProp_RiskItem_js:
  "getProp (RiskItem_js x) ''id'' = item_id x"
  "getProp (RiskItem_js x) ''provided_severity'' = provided_severity x"
  "getProp (RiskItem_js x) ''severity_level'' = severity_level x"
  "getProp (RiskItem_js x) ''severity_score'' = Num (severity_score x)"
  "getProp (RiskItem_js x) ''snippet'' = snippet x"
  "getProp (RiskItem_js x) ''label'' = label x"
  "getProp (RiskItem_js x) ''short_risk'' = short_risk x"
  "getProp (RiskItem_js x) ''explanation'' = explanation x"
  "getProp (RiskItem_js x) ''recommendations'' = recommendations x"
  "getProp (RiskItem_js x) ''citation'' = citation x"
  by (simp_all add: RiskItem_js_def)

lemma coalesce_not_nullish: "\<not> nullish a \<Longrightarrow> coalesce a b = a"
  by (simp add: coalesce_def)

lemma coalesce_Undefined_right: "a \<noteq> Null \<Longrightarrow> coalesce a Undefined = a"
  by (cases a) (simp_all add: coalesce_def)

lemma coalesce_Null_right: "a \<noteq> Undefined \<Longrightarrow> coalesce a Null = a"
  by (cases a) (simp_all add: coalesce_def)

lemma mapRisk_RiskItem_js:
  assumes "\<not> nullish (item_id x)" "\<not> nullish (provided_severity x)"
    "\<not> nullish (severity_level x)" "Math_round (severity_score x) = severity_score x"
    "\<not> nullish (snippet x)"
    "label x \<noteq> Null" "\<not> nullish (short_risk x)" "\<not> nullish (explanation x)"
    "\<not> nullish (citation x)" "isArray (recommendations x)"
  shows "mapRisk (RiskItem_js x) j = Inr x"
proof -
  have n: "\<not> nullish (RiskItem_js x)" by (simp add: RiskItem_js_def)
  have p: "providedOf (RiskItem_js x) = provided_severity x"
    using assms(2) by (simp add: providedOf_def getProp_RiskItem_js coalesce_not_nullish)
  have s: "numericOf (RiskItem_js x) = severity_score x"
    using assms(4) by (simp add: numericOf_def getProp_RiskItem_js)
  show ?thesis
    unfolding mapRisk_def p s getProp_RiskItem_js
    using n assms
    by (simp add: coalesce_not_nullish coalesce_Undefined_right)
qed

lemma mapRisk_twice:
  "mapRisk r i = Inr x \<Longrightarrow> isArray (recommendations x) \<Longrightarrow> mapRisk (RiskItem_js x) j = Inr x"
  by (intro mapRisk_RiskItem_js mapRisk_normal_form)

lemma mapRisks_twice:
  "mapRisks i rs = Inr items \<Longrightarrow> \<forall>x \<in> set items. isArray (recommendations x) \<Longrightarrow>
   mapRisks j (map RiskItem_js items) = Inr items"
proof (induction rs arbitrary: i j items)
  case Nil
  then show ?case by simp
next
  case (Cons r rs)
  from Cons.prems(1) obtain x rest where
    h: "mapRisk r i = Inr x" "mapRisks (Suc i) rs = Inr rest" "items = x # rest"
    by (auto split: sum.splits)
  from Cons.prems(2) h(3) have a: "isArray (recommendations x)"
    and b: "\<forall>x \<in> set rest. isArray (recommendations x)" by simp_all
  from mapRisk_twice [OF h(1) a, of j] Cons.IH [OF h(2) b, of "Suc j"] h(3)
  show ?case by simp
qed

lemma hasProperty_RiskItem_js: "hasProperty ''document_level'' (RiskItem_js x) = Inr False"
  by (simp add: RiskItem_js_def)

lemma takeDocumentLevel_RisksResponse_js:
  assumes "truthy (document_level res)"
  shows "takeDocumentLevel (RisksResponse_js res)
           = Inr (map RiskItem_js (risks res), document_level res)"
proof (cases "risks res = []")
  case True
  with assms show ?thesis
    by (simp add: takeDocumentLevel_def RisksResponse_js_def)
next
  case False
  then have "last (map RiskItem_js (risks res)) = RiskItem_js (last (risks res))"
    by (simp add: last_map)
  moreover have "typeofObject (RiskItem_js (last (risks res)))"
    by (simp add: RiskItem_js_def)
  ultimately show ?thesis
    using assms False
    by (simp add: takeDocumentLevel_def RisksResponse_js_def hasProperty_RiskItem_js Let_def)
qed

lemma candidatesAndAggregate_RisksResponse_js:
  assumes "truthy (document_level res)"
  shows "candidatesAndAggregate (RisksResponse_js res)
           = Inr (map RiskItem_js (risks res), document_level res)"
proof -
  have "truthy (RisksResponse_js res)" "isArray (getProp (RisksResponse_js res) ''risks'')"
    by (simp_all add: RisksResponse_js_def)
  then show ?thesis
    using takeDocumentLevel_RisksResponse_js [OF assms]
    by (simp add: candidatesAndAggregate_def)
qed

lemma computeDocumentLevel_truthy: "truthy (computeDocumentLevel rs)"
  by (simp add: computeDocumentLevel_def Let_def DocumentLevel_js_def)

lemma normalizeRisksResponse_document_level_truthy:
  assumes "normalizeRisksResponse raw = Inr res"
  shows "truthy (document_level res)"
proof -
  from assms obtain arr supplied where c: "candidatesAndAggregate raw = Inr (arr, supplied)"
    by (auto simp: normalizeRisksResponse_eq split: sum.splits)
  from normalizeRisksResponse_Inr(2) [OF c assms] show ?thesis
    by (simp add: computeDocumentLevel_truthy split: if_splits)
qed

lemma normalizeRisksResponse_twice:
  assumes "normalizeRisksResponse raw = Inr res"
    and "\<forall>x \<in> set (risks res). isArray (recommendations x)"
  shows "normalizeRisksResponse (RisksResponse_js res) = Inr res"
proof -
  from assms(1) obtain arr supplied where c: "candidatesAndAggregate raw = Inr (arr, supplied)"
    by (auto simp: normalizeRisksResponse_eq split: sum.splits)
  note m = normalizeRisksResponse_Inr(1) [OF c assms(1)]
  note t = normalizeRisksResponse_document_level_truthy [OF assms(1)]
  from mapRisks_twice [OF m assms(2), of 0] t
    candidatesAndAggregate_RisksResponse_js [OF t]
  show ?thesis by (simp add: normalizeRisksResponse_eq)
qed

lemma getProp_SummarizeResponse_js:
  "getProp (SummarizeResponse_js x) ''doc_id'' = doc_id x"
  "getProp (SummarizeResponse_js x) ''executive_summary'' = executive_summary x"
  "getProp (SummarizeResponse_js x) ''points'' = points x"
  "getProp (SummarizeResponse_js x) ''key_clauses'' = key_clauses x"
  "getProp (SummarizeResponse_js x) ''purpose'' = purpose x"
  "getProp (SummarizeResponse_js x) ''rag_corpus'' = rag_corpus x"
  "getProp (SummarizeResponse_js x) ''fallback'' = Bool (fallback x)"
  "getProp (SummarizeResponse_js x) ''debug'' = debug x"
  "getProp (SummarizeResponse_js x) ''summary'' = summary x"
  "getProp (SummarizeResponse_js x) ''document_purpose'' = Undefined"
  "getProp (SummarizeResponse_js x) ''corpus_name'' = Undefined"
  by (simp_all add: SummarizeResponse_js_def)

lemma normalizeSummarizeResponse_SummarizeResponse_js:
  assumes "\<not> nullish (executive_summary x)" "isArray (points x)" "key_clauses x = Arr []"
    "purpose x \<noteq> Undefined" "rag_corpus x \<noteq> Undefined" "debug x \<noteq> Null"
    "\<not> nullish (summary x)"
  shows "normalizeSummarizeResponse (SummarizeResponse_js x) = Inr x"
proof -
  have t: "truthy (SummarizeResponse_js x)" by (simp add: SummarizeResponse_js_def)
  have s: "isStructured (SummarizeResponse_js x)"
    using assms(2) by (simp add: isStructured_def getProp_SummarizeResponse_js)
  have "normalizeStructured (SummarizeResponse_js x) = Inr x"
    unfolding normalizeStructured_def getProp_SummarizeResponse_js
    using assms
    by (simp add: coalesce_not_nullish coalesce_Undefined_right coalesce_Null_right
          coalesce_def [of Undefined])
  with t s show ?thesis by (simp add: normalizeSummarizeResponse_def)
qed

lemma pointsArray_isArray: "pointsArray r = Inr pts \<Longrightarrow> isArray pts"
  by (auto simp: pointsArray_def split: sum.splits)

lemma coalesce_Null_not_Undefined: "coalesce a (coalesce b Null) \<noteq> Undefined"
  by (cases a; cases b) (simp_all add: coalesce_def)

lemma coalesce_Undefined_not_Null: "coalesce a Undefined \<noteq> Null"
  by (cases a) (simp_all add: coalesce_def)

lemma normalizeStructured_normal_form:
  assumes "normalizeStructured raw = Inr x"
    and "\<not> (nullish (getProp raw ''summary'') \<and> nullish (getProp raw ''executive_summary''))"
  shows "\<not> nullish (executive_summary x)" "isArray (points x)" "key_clauses x = Arr []"
    "purpose x \<noteq> Undefined" "rag_corpus x \<noteq> Undefined" "debug x \<noteq> Null"
    "\<not> nullish (summary x)"
proof -
  from assms(1) obtain pts where
    pts: "(if isArray (getProp raw ''points'') then Inr (getProp raw ''points'')
            else if isString (getProp raw ''points'') then Inr (Arr [getProp raw ''points''])
            else if truthy (getProp raw ''summary'')
              then pointsArray (splitIntoPoints (getProp raw ''summary'') 10)
            else Inr (Arr [])) = Inr pts"
    and x: "x = projr (normalizeStructured raw)"
    by (auto simp: normalizeStructured_def split: sum.splits)
  from pts have a: "isArray pts"
    by (auto split: if_splits dest: pointsArray_isArray)
  show "\<not> nullish (executive_summary x)"
    unfolding x normalizeStructured_def pts
    by (cases "getProp raw ''summary''") (simp_all add: coalesce_def)
  show "isArray (points x)"
    unfolding x normalizeStructured_def pts using a by simp
  show "key_clauses x = Arr []"
    unfolding x normalizeStructured_def pts by simp
  show "purpose x \<noteq> Undefined"
    unfolding x normalizeStructured_def pts by (simp add: coalesce_Null_not_Undefined)
  show "rag_corpus x \<noteq> Undefined"
    unfolding x normalizeStructured_def pts by (simp add: coalesce_Null_not_Undefined)
  show "debug x \<noteq> Null"
    unfolding x normalizeStructured_def pts by (simp add: coalesce_Undefined_not_Null)
  show "\<not> nullish (summary x)"
    unfolding x normalizeStructured_def pts using assms(2) by (auto simp: coalesce_def)
qed

lemma normalizeSummarizeResponse_twice:
  assumes "truthy raw"
    and "isStructured raw \<or> isString (getProp raw ''summary'')"
    and "\<not> (nullish (getProp raw ''summary'') \<and> nullish (getProp raw ''executive_summary''))"
    and "normalizeSummarizeResponse raw = Inr x"
  shows "normalizeSummarizeResponse (SummarizeResponse_js x) = Inr x"
proof (cases "isStructured raw")
  case True
  with assms(1,4) have "normalizeStructured raw = Inr x"
    by (simp add: normalizeSummarizeResponse_def)
  from normalizeStructured_normal_form [OF this assms(3)] show ?thesis
    by (rule normalizeSummarizeResponse_SummarizeResponse_js)
next
  case False
  with assms(2) obtain s where s: "getProp raw ''summary'' = Str s"
    by (cases "getProp raw ''summary''") simp_all
  from assms(1,4) False s obtain pts where
    pts: "pointsArray (splitIntoPoints (Str s) 10) = Inr pts"
    and x: "x = \<lparr>doc_id = getProp raw ''doc_id'',
             executive_summary = Str s,
             points = pts,
             key_clauses = Arr [],
             purpose = coalesce (getProp raw ''purpose'') Null,
             rag_corpus = coalesce (getProp raw ''rag_corpus'')
                            (coalesce (getProp raw ''corpus_name'') Null),
             fallback = truthy (getProp raw ''fallback''),
             debug = coalesce (getProp raw ''debug'') Undefined,
             summary = Str s\<rparr>"
    by (auto simp: normalizeSummarizeResponse_def split: sum.splits)
  have "coalesce (getProp raw ''purpose'') Null \<noteq> Undefined"
    by (cases "getProp raw ''purpose''") (simp_all add: coalesce_def)
  then show ?thesis
    unfolding x
    by (intro normalizeSummarizeResponse_SummarizeResponse_js)
       (simp_all add: pointsArray_isArray [OF pts] coalesce_Null_not_Undefined
          coalesce_Undefined_not_Null)
qed

text \<open>
  C9, as the code has it. Risk-list normalization gives back a value it has returned
  when the \<^verbatim>\<open>recommendations\<close> of every item of that value is an array. Summary
  normalization gives back a value it has returned for an input of the structured
  branch or with a \<^verbatim>\<open>summary\<close> string, when \<^verbatim>\<open>summary\<close> or \<^verbatim>\<open>executive_summary\<close> of
  the input is neither null nor undefined.
\<close>

theorem renormalization_fixed_points:
  "(normalizeRisksResponse raw = Inr res \<and>
      (\<forall>x \<in> set (risks res). isArray (recommendations x)) \<longrightarrow>
      normalizeRisksResponse (RisksResponse_js res) = Inr res) \<and>
   (truthy raw' \<and>
      (isStructured raw' \<or> isString (getProp raw' ''summary'')) \<and>
      \<not> (nullish (getProp raw' ''summary'') \<and> nullish (getProp raw' ''executive_summary'')) \<and>
      normalizeSummarizeResponse raw' = Inr res' \<longrightarrow>
      normalizeSummarizeResponse (SummarizeResponse_js res') = Inr res')"
  using normalizeRisksResponse_twice [of raw res] normalizeSummarizeResponse_twice [of raw' res']
  by blast

theorem renormalization_fixed_points_witness:
  "normalizeRisksResponse (Arr [Obj [(''severity_score'', Num 90), (''recs'', Arr [Str ''Ask''])]])
     = Inr \<lparr>risks =
         [\<lparr>item_id = Str ''risk-0'', provided_severity = Str ''Low'',
           severity_level = Str ''Low'', severity_score = 90, snippet = Str '''',
           label = Undefined, short_risk = Str ''Potential risk'', explanation = Str '''',
           recommendations = Arr [Str ''Ask''],
           citation = Obj [(''page'', Null), (''start'', Null), (''end'', Null)]\<rparr>],
        document_level = DocumentLevel_js 90 ''High'' 1 0 0\<rparr>
   \<and> isArray (recommendations
         \<lparr>item_id = Str ''risk-0'', provided_severity = Str ''Low'',
           severity_level = Str ''Low'', severity_score = 90, snippet = Str '''',
           label = Undefined, short_risk = Str ''Potential risk'', explanation = Str '''',
           recommendations = Arr [Str ''Ask''],
           citation = Obj [(''page'', Null), (''start'', Null), (''end'', Null)]\<rparr>)
   \<and> truthy (Obj [(''summary'', Str ''Rent is due.'')])
   \<and> (isStructured (Obj [(''summary'', Str ''Rent is due.'')])
        \<or> isString (getProp (Obj [(''summary'', Str ''Rent is due.'')]) ''summary''))
   \<and> \<not> (nullish (getProp (Obj [(''summary'', Str ''Rent is due.'')]) ''summary'')
          \<and> nullish (getProp (Obj [(''summary'', Str ''Rent is due.'')]) ''executive_summary''))
   \<and> normalizeSummarizeResponse (Obj [(''summary'', Str ''Rent is due.'')])
     = Inr \<lparr>doc_id = Undefined, executive_summary = Str ''Rent is due.'',
            points = Arr [Str ''Rent is due.''], key_clauses = Arr [], purpose = Null,
            rag_corpus = Null, fallback = False, debug = Undefined,
            summary = Str ''Rent is due.''\<rparr>
   \<and> normalizeRisksResponse (RisksResponse_js \<lparr>risks =
         [\<lparr>item_id = Str ''risk-0'', provided_severity = Str ''Low'',
           severity_level = Str ''Low'', severity_score = 90, snippet = Str '''',
           label = Undefined, short_risk = Str ''Potential risk'', explanation = Str '''',
           recommendations = Arr [Str ''Ask''],
           citation = Obj [(''page'', Null), (''start'', Null), (''end'', Null)]\<rparr>],
        document_level = DocumentLevel_js 90 ''High'' 1 0 0\<rparr>)
     = Inr \<lparr>risks =
         [\<lparr>item_id = Str ''risk-0'', provided_severity = Str ''Low'',
           severity_level = Str ''Low'', severity_score = 90, snippet = Str '''',
           label = Undefined, short_risk = Str ''Potential risk'', explanation = Str '''',
           recommendations = Arr [Str ''Ask''],
           citation = Obj [(''page'', Null), (''start'', Null), (''end'', Null)]\<rparr>],
        document_level = DocumentLevel_js 90 ''High'' 1 0 0\<rparr>
   \<and> normalizeSummarizeResponse (SummarizeResponse_js
          \<lparr>doc_id = Undefined, executive_summary = Str ''Rent is due.'',
            points = Arr [Str ''Rent is due.''], key_clauses = Arr [], purpose = Null,
            rag_corpus = Null, fallback = False, debug = Undefined,
            summary = Str ''Rent is due.''\<rparr>)
     = Inr \<lparr>doc_id = Undefined, executive_summary = Str ''Rent is due.'',
            points = Arr [Str ''Rent is due.''], key_clauses = Arr [], purpose = Null,
            rag_corpus = Null, fallback = False, debug = Undefined,
            summary = Str ''Rent is due.''\<rparr>"
  (is "?n \<and> ?r \<and> ?t \<and> ?b \<and> ?s \<and> ?m \<and> ?c1 \<and> ?c2")
proof -
  have n: ?n by code_simp
  have r: ?r by simp
  have t: ?t by simp
  have b: ?b by simp
  have s: ?s by simp
  have m: ?m by code_simp
  from renormalization_fixed_points
         [of "Arr [Obj [(''severity_score'', Num 90), (''recs'', Arr [Str ''Ask''])]]" _
             "Obj [(''summary'', Str ''Rent is due.'')]"] n r t b s m
  show ?thesis by simp
qed

text \<open>
  C9, as the claim states it, fails for both normalizers. The summary of null is
  normalized again to a value with \<^verbatim>\<open>purpose: null\<close>, \<^verbatim>\<open>rag_corpus: null\<close> and
  \<^verbatim>\<open>summary: ''\<close>, which the first value does not have; a risk whose
  \<^verbatim>\<open>recommendations\<close> came from a string \<^verbatim>\<open>recs\<close> loses them the second time.
\<close>

theorem renormalization_changes_value:
  "renormalizeSummary Null \<noteq> normalizeSummarizeResponse Null
   \<and> map_sum id summary (normalizeSummarizeResponse Null) = Inr Undefined
   \<and> map_sum id summary (renormalizeSummary Null) = Inr (Str '''')
   \<and> renormalizeRisks (Obj [(''risks'', Arr [Obj [(''recs'', Str ''x'')]])])
       \<noteq> normalizeRisksResponse (Obj [(''risks'', Arr [Obj [(''recs'', Str ''x'')]])])
   \<and> map_sum id (map recommendations \<circ> risks)
        (normalizeRisksResponse (Obj [(''risks'', Arr [Obj [(''recs'', Str ''x'')]])]))
       = Inr [Str ''x'']
   \<and> map_sum id (map recommendations \<circ> risks)
        (renormalizeRisks (Obj [(''risks'', Arr [Obj [(''recs'', Str ''x'')]])]))
       = Inr [Arr []]"
  by code_simp

subsection \<open>When the normalizers return\<close>

lemma normalizeRisksResponse_unrecognized_shape:
  assumes "\<not> isArray raw"
    and "\<not> isArray (getProp raw ''risks'')"
    and "\<forall>kvs. getProp raw ''risks'' \<noteq> Obj kvs"
  shows "normalizeRisksResponse raw = Inr empty_response"
  using assms
  by (cases "getProp raw ''risks''") (simp_all add: normalizeRisksResponse_unfold)

lemma mapRisks_raises_iff:
  "(mapRisks i rs = Inl TypeError) = (\<exists>r \<in> set rs. nullish r)"
proof (induction rs arbitrary: i)
  case Nil
  then show ?case by simp
next
  case (Cons r rs)
  show ?case
  proof (cases "nullish r")
    case True
    then show ?thesis by (simp add: mapRisk_def)
  next
    case False
    then obtain x where "mapRisk r i = Inr x" by (simp add: mapRisk_def)
    with False Cons.IH [of "Suc i"] show ?thesis
      by (cases "mapRisks (Suc i) rs") auto
  qed
qed

lemma error_is_TypeError: "(e :: error) = TypeError"
  by (cases e) simp

lemma takeDocumentLevel_Arr:
  "takeDocumentLevel (Arr xs) =
     (if xs \<noteq> [] \<and> last xs = Null then Inl TypeError
      else if xs \<noteq> [] \<and> hasProperty ''document_level'' (last xs) = Inr True
        then Inr (butlast xs, getProp (last xs) ''document_level'')
      else Inr (xs, Undefined))"
proof (cases "xs = []")
  case True
  then show ?thesis by (simp add: takeDocumentLevel_def)
next
  case False
  then show ?thesis
    by (cases "last xs")
       (auto simp: takeDocumentLevel_def Let_def split: sum.splits bool.splits)
qed

lemma normalizeRisksResponse_array_raises_iff:
  "(normalizeRisksResponse (Arr xs) = Inl TypeError) = (\<exists>x \<in> set xs. nullish x)"
proof (cases "xs = []")
  case True
  then show ?thesis
    by (simp add: normalizeRisksResponse_unfold normalizeRisksArray_def takeDocumentLevel_Arr)
next
  case False
  then have xs: "xs = butlast xs @ [last xs]" by simp
  then have set_xs: "set xs = insert (last xs) (set (butlast xs))"
    by (metis Un_insert_right append_Nil2 list.simps(15) set_append)
  show ?thesis
  proof (cases "last xs = Null")
    case True
    with False set_xs show ?thesis
      by (auto simp: normalizeRisksResponse_unfold normalizeRisksArray_def takeDocumentLevel_Arr)
  next
    case notNull: False
    show ?thesis
    proof (cases "hasProperty ''document_level'' (last xs) = Inr True")
      case True
      then have "\<not> nullish (last xs)" by (cases "last xs") simp_all
      with True False notNull set_xs mapRisks_raises_iff [of 0 "butlast xs"] show ?thesis
        by (auto simp: normalizeRisksResponse_unfold normalizeRisksArray_def
              takeDocumentLevel_Arr split: sum.splits)
    next
      case False
      with notNull mapRisks_raises_iff [of 0 xs] show ?thesis
        by (auto simp: normalizeRisksResponse_unfold normalizeRisksArray_def
              takeDocumentLevel_Arr split: sum.splits)
    qed
  qed
qed

lemma normalized_risks_is_array:
  "truthy (RisksResponse_js res) \<and> isArray (getProp (RisksResponse_js res) ''risks'')"
  by (simp add: RisksResponse_js_def)

lemma splitIntoPoints_returns:
  "\<not> truthy v \<or> isString v \<Longrightarrow> \<exists>ps. splitIntoPoints v n = Inr ps"
  by (cases v) (auto simp: splitIntoPoints_def Let_def)

lemma pointsArray_returns:
  "\<not> truthy v \<or> isString v \<Longrightarrow> \<exists>ps. pointsArray (splitIntoPoints v n) = Inr ps"
  using splitIntoPoints_returns [of v n] by (auto simp: pointsArray_def)

lemma normalizeSummarizeResponse_returns:
  assumes "\<not> truthy (getProp raw ''summary'') \<or> isString (getProp raw ''summary'')"
  shows "\<exists>res. normalizeSummarizeResponse raw = Inr res"
proof -
  obtain ps where ps: "pointsArray (splitIntoPoints (getProp raw ''summary'') 10) = Inr ps"
    using pointsArray_returns [OF assms] by blast
  have "\<exists>ps. pointsArray (splitIntoPoints raw 10) = Inr ps" if "isString raw"
    using that pointsArray_returns [of raw 10] by blast
  then show ?thesis
    using ps
    by (auto simp: normalizeSummarizeResponse_def normalizeStructured_def)
qed

lemma normalizeSummarizeResponse_raises_iff:
  "(normalizeSummarizeResponse raw = Inl TypeError) =
     (truthy (getProp raw ''summary'') \<and> \<not> isString (getProp raw ''summary'') \<and>
      (if isStructured raw
       then \<not> isArray (getProp raw ''points'') \<and> \<not> isString (getProp raw ''points'')
       else nullish (getProp raw ''points'')))"
proof (cases "\<not> truthy (getProp raw ''summary'') \<or> isString (getProp raw ''summary'')")
  case True
  with normalizeSummarizeResponse_returns [OF True] show ?thesis by auto
next
  case False
  then have r: "splitIntoPoints (getProp raw ''summary'') 10 = Inl TypeError"
    by (cases "getProp raw ''summary''") (simp_all add: splitIntoPoints_def)
  from False have t: "truthy raw" by (cases raw) auto
  from False have s: "\<not> isString raw" by (cases raw) auto
  from False r t s show ?thesis
    by (auto simp: normalizeSummarizeResponse_def normalizeStructured_def pointsArray_def)
qed

subsection \<open>The aggregate of the synthesizer, and the scenarios of the specification\<close>

lemma severityForTag_small: "heuristicScore (snd (severityForTag tag))"
  by (simp add: severityForTag_def heuristicScore_def)

lemma scores_small_foldl:
  assumes "\<And>st tag. \<forall>x \<in> set (fst st). heuristicScore (severity_score x) \<Longrightarrow>
             \<forall>x \<in> set (fst (step st tag)). heuristicScore (severity_score x)"
    and "\<forall>x \<in> set (fst st). heuristicScore (severity_score x)"
  shows "\<forall>x \<in> set (fst (foldl step st tags)). heuristicScore (severity_score x)"
  using assms(2)
proof (induction tags arbitrary: st)
  case Nil
  then show ?case by simp
next
  case (Cons tag tags)
  have "\<forall>x \<in> set (fst (step st tag)). heuristicScore (severity_score x)"
    by (rule assms(1) [OF Cons.prems])
  from Cons.IH [OF this] show ?case by simp
qed

lemma scores_small_summaryStep:
  "\<forall>x \<in> set (fst st). heuristicScore (severity_score x) \<Longrightarrow>
   \<forall>x \<in> set (fst (summaryStep summaryText st tag)). heuristicScore (severity_score x)"
  by (simp add: summaryStep_def summaryRisk_def Let_def severityForTag_small)

lemma scores_small_pointStep:
  "\<forall>x \<in> set (fst st). heuristicScore (severity_score x) \<Longrightarrow>
   \<forall>x \<in> set (fst (pointStep i pt st tag)). heuristicScore (severity_score x)"
  by (simp add: pointStep_def pointRisk_def Let_def severityForTag_small)

lemma scores_small_summaryScan:
  assumes "\<forall>x \<in> set (fst st). heuristicScore (severity_score x)"
  shows "\<forall>x \<in> set (fst (summaryScan summaryText st)). heuristicScore (severity_score x)"
proof (cases "summaryText = []")
  case True
  with assms show ?thesis by (simp add: summaryScan_def)
next
  case False
  have "\<forall>x \<in> set (fst (foldl (summaryStep summaryText) st (findKeywords summaryText))).
          heuristicScore (severity_score x)"
    using assms by (rule scores_small_foldl [rotated]) (rule scores_small_summaryStep)
  with False show ?thesis by (simp add: summaryScan_def)
qed

lemma scores_small_pointsScan:
  "\<forall>x \<in> set (fst st). heuristicScore (severity_score x) \<Longrightarrow>
   \<forall>x \<in> set (fst (pointsScan i pts st)). heuristicScore (severity_score x)"
proof (induction pts arbitrary: i st)
  case Nil
  then show ?case by simp
next
  case (Cons pt pts)
  have "\<forall>x \<in> set (fst (foldl (pointStep i pt) st (findKeywords pt))). heuristicScore (severity_score x)"
    using Cons.prems by (rule scores_small_foldl [rotated]) (rule scores_small_pointStep)
  from Cons.IH [OF this, of "Suc i"] Cons.prems show ?case by simp
qed

lemma generateHeuristicRisks_scores_small:
  "\<forall>x \<in> set (risks (generateHeuristicRisks summaryText pts)). heuristicScore (severity_score x)"
proof -
  have "\<forall>x \<in> set (fst ([] :: RiskItem list, {} :: string set)). heuristicScore (severity_score x)"
    by simp
  then have "\<forall>x \<in> set (fst (pointsScan 0 pts (summaryScan summaryText ([], {})))).
          heuristicScore (severity_score x)"
    by (intro scores_small_pointsScan scores_small_summaryScan)
  then show ?thesis
    by (simp add: generateHeuristicRisks_def Let_def genericRisk_def heuristicScore_def)
qed

lemma scanInvariant_length:
  assumes "scanInvariant st"
  shows "length (fst st) \<le> 7"
proof -
  from assms have d: "distinct (map categoryOf (fst st))"
    and s: "categoryOf ` set (fst st) \<subseteq> fst ` set kws"
    by (simp_all add: scanInvariant_def)
  have "length (fst st) = card (set (map categoryOf (fst st)))"
    using distinct_card [OF d] by simp
  also have "\<dots> \<le> card (fst ` set kws)"
    using s by (intro card_mono) simp_all
  also have "\<dots> \<le> card (set kws)" by (intro card_image_le) simp
  also have "\<dots> \<le> length kws" by (rule card_length)
  also have "\<dots> = 7" by (simp add: kws_def)
  finally show ?thesis .
qed

lemma generateHeuristicRisks_length:
  "length (risks (generateHeuristicRisks summaryText pts)) \<le> 7"
proof -
  have "scanInvariant ([], {})" by (simp add: scanInvariant_def)
  then have "scanInvariant (pointsScan 0 pts (summaryScan summaryText ([], {})))"
    by (intro scanInvariant_pointsScan scanInvariant_summaryScan)
  from scanInvariant_length [OF this] show ?thesis
    by (simp add: generateHeuristicRisks_def Let_def)
qed

lemma small_scores_list:
  assumes "\<forall>x \<in> set rs. heuristicScore (severity_score x)"
  shows "\<exists>scores. map severity_score rs = map Finite scores \<and>
           (\<forall>v \<in> set scores. v \<in> \<int>) \<and>
           (\<Sum>v\<leftarrow>scores. \<bar>v\<bar>) \<le> 85 * of_nat (length rs)"
  using assms
proof (induction rs)
  case Nil
  then show ?case by simp
next
  case (Cons r rs)
  then obtain scores where s: "map severity_score rs = map Finite scores"
    "\<forall>v \<in> set scores. v \<in> \<int>" "(\<Sum>v\<leftarrow>scores. \<bar>v\<bar>) \<le> 85 * of_nat (length rs)"
    by auto
  from Cons.prems obtain v where v: "severity_score r = Finite v" "v \<in> \<int>" "0 \<le> v" "v \<le> 85"
    by (cases "severity_score r") (auto simp: heuristicScore_def)
  have "map severity_score (r # rs) = map Finite (v # scores)" using s(1) v(1) by simp
  moreover have "\<forall>w \<in> set (v # scores). w \<in> \<int>" using s(2) v(2) by simp
  moreover have "(\<Sum>w\<leftarrow>v # scores. \<bar>w\<bar>) \<le> 85 * of_nat (length (r # rs))"
    using s(3) v(3,4) by (simp add: algebra_simps)
  ultimately show ?case by blast
qed

text \<open>
  The synthesizer's copy of the aggregate (lines 252 to 264): at most 7 scores of at most
  85, so the double arithmetic is exact.
\<close>

lemma generateHeuristicRisks_document_level:
  "\<exists>scores.
     map severity_score (risks (generateHeuristicRisks summaryText pts)) = map Finite scores \<and>
     document_level (generateHeuristicRisks summaryText pts) =
       (let score = of_int \<lfloor>sum_list scores / of_nat (length scores) + 1 / 2\<rfloor>
        in DocumentLevel_js (Finite score)
             (if score \<le> 33 then ''Low'' else if score \<le> 66 then ''Medium'' else ''High'')
             (length (filter (\<lambda>s. 67 \<le> s) scores))
             (length (filter (\<lambda>s. 34 \<le> s \<and> s \<le> 66) scores))
             (length (filter (\<lambda>s. s \<le> 33) scores)))"
proof -
  define rs where "rs = risks (generateHeuristicRisks summaryText pts)"
  have ne: "rs \<noteq> []"
    by (simp add: rs_def generateHeuristicRisks_def Let_def)
  have len: "length rs \<le> 7" unfolding rs_def by (rule generateHeuristicRisks_length)
  from small_scores_list [OF generateHeuristicRisks_scores_small [of summaryText pts]]
  obtain scores where s: "map severity_score rs = map Finite scores"
    "\<forall>v \<in> set scores. v \<in> \<int>" "(\<Sum>v\<leftarrow>scores. \<bar>v\<bar>) \<le> 85 * of_nat (length rs)"
    unfolding rs_def by blast
  have l: "length scores = length rs" using s(1) by (metis length_map)
  from len have "(of_nat (length rs) :: rat) \<le> 7" by simp
  with s(3) have small: "(\<Sum>v\<leftarrow>scores. \<bar>v\<bar>) < 2 ^ 52" by simp
  from len l have len32: "length scores < 2 ^ 32" by simp
  have "document_level (generateHeuristicRisks summaryText pts) = computeDocumentLevel rs"
    by (simp add: rs_def generateHeuristicRisks_def Let_def)
  with computeDocumentLevel_exact [OF s(1) s(2) small len32] ne l s(1)
  show ?thesis unfolding rs_def by (intro exI [of _ scores]) (auto simp: Let_def)
qed

text \<open>Scenario B: a summary that mentions eviction and a deposit, and no points.\<close>

lemma scenario_B:
  "map item_id (risks (generateHeuristicRisks
      ''Eviction; deposit kept.'' []))
     = [Str ''heuristic-eviction'', Str ''heuristic-deposit'']
   \<and> document_level (generateHeuristicRisks
      ''Eviction; deposit kept.'' [])
     = DocumentLevel_js 68 ''High'' 1 1 0"
  by code_simp

text \<open>Scenario C: the aggregate of a trailing element is taken as it is.\<close>

lemma scenario_C:
  "map_sum id (\<lambda>res. (map severity_score (risks res), document_level res))
     (normalizeRisksResponse
        (Arr [Obj [(''severity_score'', Num 90)], Obj [(''severity_score'', Num 30)],
              Obj [(''document_level'', Obj [(''risk_tier'', Str ''custom'')])]]))
   = Inr ([90, 30], Obj [(''risk_tier'', Str ''custom'')])"
  by code_simp

text \<open>Scenario D: the empty object.\<close>

lemma scenario_D:
  "map_sum id (\<lambda>res. (executive_summary res, points res)) (normalizeSummarizeResponse (Obj []))
   = Inr (Str '''', Arr [])"
  by code_simp


end
